theory Spec2Isabelle
  imports Complex_Main "HOL-Library.Char_ord" "HOL-Library.List_Lexorder"
begin

section \<open>Translation-catalog quality check (ci/check\_i18n\_quality.py)\<close>

text \<open>
  A shallow embedding of the four functions of \<^verbatim>\<open>ci/check_i18n_quality.py\<close>:
  \<^verbatim>\<open>parse_ratio\<close>, \<^verbatim>\<open>load_json\<close>, \<^verbatim>\<open>validate_catalog_dir\<close> and \<^verbatim>\<open>main\<close>.

  \<^item> A Python \<^verbatim>\<open>str\<close> is a \<open>string\<close>; a character stands for a code point below 256.
    Strings are ordered as Python orders them: lexicographically by code point.
  \<^item> \<^verbatim>\<open>raise SystemExit(msg)\<close> is the value \<open>Inl (SystemExit msg)\<close>; a function that
    returns \<open>v\<close> yields \<open>Inr v\<close>.
  \<^item> The environment is a map from names to values (\<^verbatim>\<open>os.getenv\<close>), the file system a
    map from a directory's path to its listing, \<open>None\<close> when the directory does not
    exist. A listing pairs every entry's name with what opening it and running
    \<^verbatim>\<open>json.load\<close> on it gives: an exception or the parsed value.
  \<^item> A Python \<^verbatim>\<open>float\<close> is a real number, an infinity or NaN, and floats are compared
    as IEEE arithmetic compares them. The operations whose result depends on rounding
    or on number formatting (\<^verbatim>\<open>float(raw)\<close>, \<^verbatim>\<open>same / key_total\<close>, \<^verbatim>\<open>repr\<close>, \<^verbatim>\<open>str\<close> and
    the \<^verbatim>\<open>.1%\<close> format) are parameters of the model, collected in the record
    \<open>builtins\<close>: every theorem holds for all of their values. The two zeros of IEEE
    arithmetic are one value here (no comparison tells them apart), and the literals
    \<^verbatim>\<open>0.60\<close> and \<^verbatim>\<open>0.40\<close> are written as the reals they round.
\<close>

subsection \<open>Python values\<close>

datatype pyfloat = Finite real | PosInf | NegInf | NaN

text \<open>\<^verbatim>\<open>a < b\<close> on floats: false as soon as one side is NaN.\<close>

fun float_lt :: "pyfloat \<Rightarrow> pyfloat \<Rightarrow> bool" where
  "float_lt NaN _ = False"
| "float_lt _ NaN = False"
| "float_lt (Finite x) (Finite y) = (x < y)"
| "float_lt (Finite x) PosInf = True"
| "float_lt (Finite x) NegInf = False"
| "float_lt PosInf _ = False"
| "float_lt NegInf NegInf = False"
| "float_lt NegInf _ = True"

text \<open>\<^verbatim>\<open>a > b\<close> on floats.\<close>

definition float_gt :: "pyfloat \<Rightarrow> pyfloat \<Rightarrow> bool" where
  "float_gt a b = float_lt b a"

text \<open>
  What \<^verbatim>\<open>json.load\<close> returns. A dict keeps its items in insertion order; its keys are
  strings, each present once.
\<close>

datatype json =
    JNull
  | JBool bool
  | JInt int
  | JFloat pyfloat
  | JStr string
  | JList "json list"
  | JDict "(string \<times> json) list"

type_synonym pydict = "(string \<times> json) list"

text \<open>\<^verbatim>\<open>isinstance(v, str)\<close>\<close>

fun is_str :: "json \<Rightarrow> bool" where
  "is_str (JStr s) = True"
| "is_str _ = False"

datatype error = SystemExit string

text \<open>
  The builtins whose results depend on floating-point rounding or formatting:
  \<^verbatim>\<open>float(raw)\<close> (\<open>None\<close> when it raises ValueError), \<^verbatim>\<open>a / b\<close> on two ints,
  \<^verbatim>\<open>repr\<close> of a str, \<^verbatim>\<open>str\<close> of a float and \<^verbatim>\<open>format(x, ".1%")\<close>.
\<close>

record builtins =
  float_of_str :: "string \<Rightarrow> pyfloat option"
  true_div :: "nat \<Rightarrow> nat \<Rightarrow> pyfloat"
  repr_str :: "string \<Rightarrow> string"
  str_float :: "pyfloat \<Rightarrow> string"
  fmt_pct1 :: "pyfloat \<Rightarrow> string"

subsection \<open>Strings\<close>

text \<open>\<^verbatim>\<open>str.isspace\<close> on one character, for code points below 256.\<close>

definition py_isspace :: "char \<Rightarrow> bool" where
  "py_isspace c = ((of_char c :: nat) \<in> set [9, 10, 11, 12, 13, 28, 29, 30, 31, 32, 133, 160])"

text \<open>\<^verbatim>\<open>s.strip()\<close>\<close>

definition strip :: "string \<Rightarrow> string" where
  "strip s = rev (dropWhile py_isspace (rev (dropWhile py_isspace s)))"

text \<open>\<^verbatim>\<open>s.startswith(p)\<close> and \<^verbatim>\<open>s.endswith(p)\<close>\<close>

definition startswith :: "string \<Rightarrow> string \<Rightarrow> bool" where
  "startswith s p = (take (length p) s = p)"

definition endswith :: "string \<Rightarrow> string \<Rightarrow> bool" where
  "endswith s p = (length p \<le> length s \<and> drop (length s - length p) s = p)"

text \<open>\<^verbatim>\<open>sep.join(xs)\<close>\<close>

fun join :: "string \<Rightarrow> string list \<Rightarrow> string" where
  "join sep [] = []"
| "join sep [x] = x"
| "join sep (x # y # ys) = x @ sep @ join sep (y # ys)"

text \<open>\<^verbatim>\<open>str(n)\<close> for an int that is not negative.\<close>

definition digit_char :: "nat \<Rightarrow> char" where
  "digit_char d = char_of (48 + d)"

function str_nat :: "nat \<Rightarrow> string" where
  "str_nat n = (if n < 10 then [digit_char n] else str_nat (n div 10) @ [digit_char (n mod 10)])"
  by pat_completeness auto
termination
  by (relation "measure id") auto

declare str_nat.simps [simp del]

subsection \<open>Paths and the file system\<close>

type_synonym path = string

text \<open>
  \<^verbatim>\<open>path / name\<close>, as a string. The paths of this program are absolute and
  normalised (\<^verbatim>\<open>Path(__file__).resolve()\<close>), so only the root ends with a slash.
\<close>

definition path_join :: "path \<Rightarrow> string \<Rightarrow> path" where
  "path_join p name = (if p = ''/'' then p @ name else p @ ''/'' @ name)"

text \<open>
  \<^verbatim>\<open>name.rfind('.')\<close>: the index of the last dot, \<open>None\<close> for Python's -1.
\<close>

fun rfind_dot :: "string \<Rightarrow> nat option" where
  "rfind_dot [] = None"
| "rfind_dot (c # cs) =
     (case rfind_dot cs of
        Some i \<Rightarrow> Some (Suc i)
      | None \<Rightarrow> if c = CHR ''.'' then Some 0 else None)"

text \<open>
  \<^verbatim>\<open>PurePath.stem\<close> of a file name: the name up to its last dot, the whole name when
  the last dot is its first or its last character or when it has none.
\<close>

definition stem :: "string \<Rightarrow> string" where
  "stem name =
     (case rfind_dot name of
        None \<Rightarrow> name
      | Some i \<Rightarrow> if 0 < i \<and> i < length name - 1 then take i name else name)"

text \<open>
  What \<^verbatim>\<open>path.open\<close> followed by \<^verbatim>\<open>json.load\<close> does on a directory entry: it raises
  an exception (\<open>Raises\<close>, with \<^verbatim>\<open>str(exc)\<close>) or returns the parsed value.
\<close>

datatype json_file = Raises string | Loads json

type_synonym listing = "(string \<times> json_file) list"

type_synonym filesystem = "path \<Rightarrow> listing option"

type_synonym environ = "string \<rightharpoonup> string"

text \<open>\<^verbatim>\<open>(path / name).exists()\<close>: false also when \<open>path\<close> itself does not exist.\<close>

definition lookup_file :: "filesystem \<Rightarrow> path \<Rightarrow> string \<Rightarrow> json_file option" where
  "lookup_file fs p name = (case fs p of None \<Rightarrow> None | Some entries \<Rightarrow> map_of entries name)"

text \<open>
  \<^verbatim>\<open>sorted(path.glob("*.json"))\<close>: the entries whose name ends with \<^verbatim>\<open>.json\<close>, ordered
  by name (the paths share their parent, so their order is the order of the names).
\<close>

definition glob_json :: "filesystem \<Rightarrow> path \<Rightarrow> listing" where
  "glob_json fs p =
     (case fs p of
        None \<Rightarrow> []
      | Some entries \<Rightarrow> filter (\<lambda>(name, f). endswith name ''.json'') entries)"

definition sorted_glob :: "filesystem \<Rightarrow> path \<Rightarrow> listing" where
  "sorted_glob fs p = sort_key fst (glob_json fs p)"

text \<open>
  Two listings of one directory: the same entries, in any order. (The operating system
  fixes no order for the entries of a directory.)
\<close>

definition same_entries :: "listing option \<Rightarrow> listing option \<Rightarrow> bool" where
  "same_entries a b =
     (case a of
        None \<Rightarrow> b = None
      | Some es \<Rightarrow>
          (case b of
             None \<Rightarrow> False
           | Some es' \<Rightarrow> distinct (map fst es) \<and> distinct (map fst es') \<and> set es = set es'))"

subsection \<open>parse\_ratio\<close>

definition parse_ratio :: "builtins \<Rightarrow> environ \<Rightarrow> string \<Rightarrow> pyfloat \<Rightarrow> error + pyfloat" where
  "parse_ratio bi environ env_name dflt =
     (case environ env_name of
        None \<Rightarrow> Inr dflt
      | Some raw \<Rightarrow>
          if strip raw = '''' then Inr dflt
          else
            (case float_of_str bi raw of
               None \<Rightarrow>
                 Inl (SystemExit (env_name @ '' must be a float between 0.0 and 1.0, got: ''
                        @ repr_str bi raw))
             | Some v \<Rightarrow>
                 if float_lt v (Finite 0) \<or> float_gt v (Finite 1)
                 then Inl (SystemExit (env_name @ '' must be between 0.0 and 1.0, got: ''
                             @ str_float bi v))
                 else Inr v))"

subsection \<open>load\_json\<close>

definition load_json :: "path \<Rightarrow> json_file \<Rightarrow> error + pydict" where
  "load_json p f =
     (case f of
        Raises exc \<Rightarrow> Inl (SystemExit (''failed to read/parse JSON file '' @ p @ '': '' @ exc))
      | Loads raw \<Rightarrow>
          (case raw of
             JDict items \<Rightarrow>
               (let non_string = [k. (k, v) \<leftarrow> items, \<not> is_str v] in
                if non_string \<noteq> []
                then Inl (SystemExit (''catalog '' @ p @ '' has non-string values for keys: ''
                            @ join '', '' (take 5 non_string)))
                else Inr items)
           | _ \<Rightarrow> Inl (SystemExit (''catalog file is not a JSON object: '' @ p))))"

subsection \<open>validate\_catalog\_dir\<close>

text \<open>
  One round of the loop over the locale files: the errors it appends to \<open>errors\<close>, or
  the SystemExit that leaves the function. \<^verbatim>\<open>data[key]\<close> and \<^verbatim>\<open>base[key]\<close> are read
  only when both dicts have the same keys, so neither raises KeyError; the loop runs
  only when \<open>key_total\<close> is not zero, so the division does not raise either.
\<close>

definition check_locale ::
  "builtins \<Rightarrow> path \<Rightarrow> pyfloat \<Rightarrow> pydict \<Rightarrow> string set \<Rightarrow> nat \<Rightarrow> string \<times> json_file
     \<Rightarrow> error + string list" where
  "check_locale bi p max_same_ratio base base_keys key_total entry =
     (let locale_file = path_join p (fst entry); locale = stem (fst entry) in
      if startswith locale ''en'' then Inr []
      else
        (case load_json locale_file (snd entry) of
           Inl exit \<Rightarrow> Inl exit
         | Inr data \<Rightarrow>
             (let keys = set (map fst data);
                  missing = sorted_list_of_set (base_keys - keys);
                  extra = sorted_list_of_set (keys - base_keys)
              in
                if missing \<noteq> [] \<or> extra \<noteq> [] then
                  (let details =
                     (if missing \<noteq> [] then [''missing='' @ str_nat (length missing)] else [])
                     @ (if extra \<noteq> [] then [''extra='' @ str_nat (length extra)] else [])
                   in Inr [locale_file @ '': key mismatch ('' @ join '', '' details @ '')''])
                else
                  (let same = card {key \<in> base_keys. map_of data key = map_of base key} in
                   if same = key_total then
                     Inr [locale_file @ '': appears to be a full English clone (''
                            @ str_nat same @ ''/'' @ str_nat key_total @ '')'']
                   else
                     (let ratio = true_div bi same key_total in
                      if float_gt ratio max_same_ratio then
                        Inr [locale_file @ '': too many English-identical values (''
                               @ str_nat same @ ''/'' @ str_nat key_total @ '' = ''
                               @ fmt_pct1 bi ratio @ '', max ''
                               @ fmt_pct1 bi max_same_ratio @ '')'']
                      else Inr [])))))"

text \<open>The loop itself: it stops at the first SystemExit.\<close>

fun locale_loop ::
  "builtins \<Rightarrow> path \<Rightarrow> pyfloat \<Rightarrow> pydict \<Rightarrow> string set \<Rightarrow> nat \<Rightarrow> listing \<Rightarrow> string list
     \<Rightarrow> error + string list" where
  "locale_loop bi p max_same_ratio base base_keys key_total [] errors = Inr errors"
| "locale_loop bi p max_same_ratio base base_keys key_total (entry # rest) errors =
     (case check_locale bi p max_same_ratio base base_keys key_total entry of
        Inl exit \<Rightarrow> Inl exit
      | Inr new \<Rightarrow> locale_loop bi p max_same_ratio base base_keys key_total rest (errors @ new))"

definition validate_catalog_dir ::
  "builtins \<Rightarrow> filesystem \<Rightarrow> path \<Rightarrow> pyfloat \<Rightarrow> error + string list" where
  "validate_catalog_dir bi fs p max_same_ratio =
     (let base_path = path_join p ''en.json'' in
      case lookup_file fs p ''en.json'' of
        None \<Rightarrow> Inr [''missing base catalog: '' @ base_path]
      | Some f \<Rightarrow>
          (case load_json base_path f of
             Inl exit \<Rightarrow> Inl exit
           | Inr base \<Rightarrow>
               (let base_keys = set (map fst base); key_total = card base_keys in
                if key_total = 0 then Inr [''base catalog has no keys: '' @ base_path]
                else locale_loop bi p max_same_ratio base base_keys key_total
                       (sorted_glob fs p) [])))"

subsection \<open>main\<close>

definition cli_dir :: "path \<Rightarrow> path" where
  "cli_dir repo = path_join (path_join repo ''i18n'') ''operator_cli''"

definition wizard_dir :: "path \<Rightarrow> path" where
  "wizard_dir repo = path_join (path_join repo ''i18n'') ''operator_wizard''"

text \<open>What \<^verbatim>\<open>main\<close> prints when it returns, from the list of all errors.\<close>

definition report :: "string list \<Rightarrow> string list \<times> int" where
  "report all_errors =
     (if all_errors \<noteq> []
      then (''[i18n-check] FAILED:'' # map (\<lambda>err. ''  - '' @ err) all_errors, 1)
      else ([''[i18n-check] ok''], 0))"

text \<open>
  \<^verbatim>\<open>main\<close>: the lines printed and the status returned, or the SystemExit that ends
  the run. \<open>repo\<close> is \<^verbatim>\<open>Path(__file__).resolve().parent.parent\<close>.
\<close>

definition main :: "builtins \<Rightarrow> environ \<Rightarrow> filesystem \<Rightarrow> path \<Rightarrow> error + (string list \<times> int)" where
  "main bi environ fs repo =
     (case parse_ratio bi environ ''I18N_MAX_SAME_RATIO_OPERATOR_CLI'' (Finite (60 / 100)) of
        Inl exit \<Rightarrow> Inl exit
      | Inr cli_max_same_ratio \<Rightarrow>
          (case parse_ratio bi environ ''I18N_MAX_SAME_RATIO_OPERATOR_WIZARD'' (Finite (40 / 100)) of
             Inl exit \<Rightarrow> Inl exit
           | Inr wizard_max_same_ratio \<Rightarrow>
               (case validate_catalog_dir bi fs (cli_dir repo) cli_max_same_ratio of
                  Inl exit \<Rightarrow> Inl exit
                | Inr errors1 \<Rightarrow>
                    (case validate_catalog_dir bi fs (wizard_dir repo) wizard_max_same_ratio of
                       Inl exit \<Rightarrow> Inl exit
                     | Inr errors2 \<Rightarrow> Inr (report ([] @ errors1 @ errors2))))))"

subsection \<open>Sample values of the builtins\<close>

text \<open>
  The builtins at the arguments that the worked examples below reach: \<^verbatim>\<open>float("0.5")\<close>,
  \<^verbatim>\<open>float("2.0")\<close> and \<^verbatim>\<open>float("nan")\<close> succeed and the other strings of the examples
  are rejected with ValueError; a quotient that is a binary fraction is exact; \<^verbatim>\<open>repr\<close> of
  a string without quotes, backslashes or control characters puts it between single
  quotes; \<^verbatim>\<open>str\<close> and the \<^verbatim>\<open>.1%\<close> format are given at the floats the examples print, and
  are a question mark elsewhere. The theorems hold for every value of the builtins;
  only the examples use these.
\<close>

definition sample_builtins :: builtins where
  "sample_builtins =
     \<lparr>float_of_str =
        (\<lambda>s. if s = ''0.5'' then Some (Finite (1 / 2))
             else if s = ''2.0'' then Some (Finite 2)
             else if s = ''nan'' then Some NaN
             else None),
      true_div = (\<lambda>a b. Finite (real a / real b)),
      repr_str = (\<lambda>s. [CHR 0x27] @ s @ [CHR 0x27]),
      str_float =
        (\<lambda>x. if x = Finite 2 then ''2.0'' else if x = Finite (1 / 2) then ''0.5''
             else if x = NaN then ''nan'' else ''?''),
      fmt_pct1 =
        (\<lambda>x. if x = Finite (1 / 2) then ''50.0%'' else if x = Finite (2 / 5) then ''40.0%''
             else if x = Finite (3 / 5) then ''60.0%'' else ''?'')\<rparr>"

section \<open>Properties\<close>

subsection \<open>The loop of validate\_catalog\_dir\<close>

lemma locale_loop_append:
  "locale_loop bi p r base K n (xs @ ys) errors =
     (case locale_loop bi p r base K n xs errors of
        Inl exit \<Rightarrow> Inl exit
      | Inr es \<Rightarrow> locale_loop bi p r base K n ys es)"
  by (induction xs arbitrary: errors) (auto split: sum.splits)

lemma locale_loop_split:
  assumes "check_locale bi p r base K n entry = Inr new"
  shows "locale_loop bi p r base K n (before @ entry # rest) errors =
     (case locale_loop bi p r base K n before errors of
        Inl exit \<Rightarrow> Inl exit
      | Inr es \<Rightarrow> locale_loop bi p r base K n rest (es @ new))"
  using assms by (simp add: locale_loop_append split: sum.splits)

lemma card_keys_pos: "base \<noteq> [] \<Longrightarrow> card (set (map fst base)) \<noteq> 0"
  by simp

lemma validate_catalog_dir_loop:
  assumes "lookup_file fs p ''en.json'' = Some bf"
    and "load_json (path_join p ''en.json'') bf = Inr base"
    and "base \<noteq> []"
  shows "validate_catalog_dir bi fs p r =
     locale_loop bi p r base (set (map fst base)) (card (set (map fst base))) (sorted_glob fs p) []"
  using assms by (simp add: validate_catalog_dir_def Let_def)

lemma check_locale_skip:
  "startswith (stem name) ''en'' \<Longrightarrow> check_locale bi p r base K n (name, f) = Inr []"
  by (simp add: check_locale_def Let_def)

lemma check_locale_mismatch:
  assumes "\<not> startswith (stem name) ''en''"
    and "load_json (path_join p name) f = Inr data"
    and "finite K"
    and "set (map fst data) \<noteq> K"
  shows "check_locale bi p r base K n (name, f) =
     Inr [path_join p name @ '': key mismatch (''
          @ join '', ''
              ((if 0 < card (K - set (map fst data))
                then [''missing='' @ str_nat (card (K - set (map fst data)))] else [])
               @ (if 0 < card (set (map fst data) - K)
                  then [''extra='' @ str_nat (card (set (map fst data) - K))] else []))
          @ '')'']"
proof -
  have fin: "finite (K - set (map fst data))" "finite (set (map fst data) - K)"
    using assms(3) by simp_all
  have ne: "K - set (map fst data) \<noteq> {} \<or> set (map fst data) - K \<noteq> {}"
    using assms(4) by blast
  have c1: "0 < card (K - set (map fst data)) \<longleftrightarrow> K - set (map fst data) \<noteq> {}"
    using fin(1) by (simp add: card_gt_0_iff)
  have c2: "0 < card (set (map fst data) - K) \<longleftrightarrow> set (map fst data) - K \<noteq> {}"
    using fin(2) by (simp add: card_gt_0_iff)
  show ?thesis
    using assms(1,2) ne fin
    by (simp add: check_locale_def Let_def c1 c2 sorted_list_of_set_eq_Nil_iff del: set_map)
qed

lemma check_locale_parity:
  assumes "\<not> startswith (stem name) ''en''"
    and "load_json (path_join p name) f = Inr data"
    and "finite K"
    and "set (map fst data) = K"
  shows "check_locale bi p r base K n (name, f) =
     (let same = card {key \<in> K. map_of data key = map_of base key} in
      if same = n then
        Inr [path_join p name @ '': appears to be a full English clone (''
             @ str_nat same @ ''/'' @ str_nat n @ '')'']
      else if float_gt (true_div bi same n) r then
        Inr [path_join p name @ '': too many English-identical values (''
             @ str_nat same @ ''/'' @ str_nat n @ '' = ''
             @ fmt_pct1 bi (true_div bi same n) @ '', max '' @ fmt_pct1 bi r @ '')'']
      else Inr [])"
  using assms by (simp add: check_locale_def Let_def del: set_map)

lemma locale_loop_filter_skipped:
  "locale_loop bi p r base K n (filter (\<lambda>e. \<not> startswith (stem (fst e)) ''en'') xs) errors =
   locale_loop bi p r base K n xs errors"
proof (induction xs arbitrary: errors)
  case Nil
  show ?case by simp
next
  case (Cons e xs)
  obtain name f where e: "e = (name, f)" by (cases e)
  show ?case
  proof (cases "startswith (stem name) ''en''")
    case True
    then show ?thesis using Cons.IH e by (simp add: check_locale_skip)
  next
    case False
    then show ?thesis using Cons.IH e by (simp split: sum.splits)
  qed
qed

lemma sorted_glob_filter:
  "fs p = Some entries \<Longrightarrow>
   filter P (sorted_glob fs p) =
     sort_key fst (filter P (filter (\<lambda>(name, f). endswith name ''.json'') entries))"
  by (simp add: sorted_glob_def glob_json_def filter_sort)

lemma validate_catalog_dir_split:
  assumes "lookup_file fs p ''en.json'' = Some bf"
    and "load_json (path_join p ''en.json'') bf = Inr base"
    and "base \<noteq> []"
    and "sorted_glob fs p = before @ entry # rest"
    and "check_locale bi p r base (set (map fst base)) (card (set (map fst base))) entry = Inr new"
  shows "validate_catalog_dir bi fs p r =
     (case locale_loop bi p r base (set (map fst base)) (card (set (map fst base))) before [] of
        Inl exit \<Rightarrow> Inl exit
      | Inr es \<Rightarrow>
          locale_loop bi p r base (set (map fst base)) (card (set (map fst base))) rest (es @ new))"
  using assms by (simp add: validate_catalog_dir_loop locale_loop_split del: set_map)

lemma card_same_eq_total:
  "finite K \<Longrightarrow> card {key \<in> K. P key} = card K \<longleftrightarrow> (\<forall>key\<in>K. P key)"
proof
  assume fin: "finite K" and eq: "card {key \<in> K. P key} = card K"
  have "{key \<in> K. P key} \<subseteq> K" by blast
  then have "{key \<in> K. P key} = K" using fin eq by (simp add: card_subset_eq)
  then show "\<forall>key\<in>K. P key" by blast
next
  assume "finite K" and "\<forall>key\<in>K. P key"
  then have "{key \<in> K. P key} = K" by blast
  then show "card {key \<in> K. P key} = card K" by simp
qed

subsection \<open>Stop conditions on the base catalog\<close>

text \<open>
  C5. When \<^verbatim>\<open>en.json\<close> is absent from the directory, \<^verbatim>\<open>validate_catalog_dir\<close> returns
  exactly one error, "missing base catalog", and when it loads as an object with no
  keys, exactly one error, "base catalog has no keys". Both hold whatever else the
  directory holds: no locale file is looked at, not even one that cannot be parsed.
\<close>

theorem base_catalog_stop:
  "(lookup_file fs p ''en.json'' = None \<longrightarrow>
      validate_catalog_dir bi fs p r = Inr [''missing base catalog: '' @ path_join p ''en.json''])
   \<and> (lookup_file fs p ''en.json'' = Some (Loads (JDict [])) \<longrightarrow>
      validate_catalog_dir bi fs p r = Inr [''base catalog has no keys: '' @ path_join p ''en.json''])"
  by (simp add: validate_catalog_dir_def load_json_def Let_def)

theorem base_catalog_stop_witness:
  "validate_catalog_dir sample_builtins
      (map_of [(''/repo/i18n/operator_cli'', [(''fr.json'', Raises ''Expecting value'')])])
      ''/repo/i18n/operator_cli'' (Finite (3 / 5))
     = Inr [''missing base catalog: /repo/i18n/operator_cli/en.json'']
   \<and> validate_catalog_dir sample_builtins
      (map_of [(''/repo/i18n/operator_wizard'',
                [(''fr.json'', Raises ''Expecting value''), (''en.json'', Loads (JDict []))])])
      ''/repo/i18n/operator_wizard'' (Finite (2 / 5))
     = Inr [''base catalog has no keys: /repo/i18n/operator_wizard/en.json'']"
proof -
  let ?fs1 = "map_of [(''/repo/i18n/operator_cli'', [(''fr.json'', Raises ''Expecting value'')])]"
  let ?fs2 = "map_of [(''/repo/i18n/operator_wizard'',
                [(''fr.json'', Raises ''Expecting value''), (''en.json'', Loads (JDict []))])]"
  have h1: "lookup_file ?fs1 ''/repo/i18n/operator_cli'' ''en.json'' = None"
    by (simp add: lookup_file_def)
  have h2: "lookup_file ?fs2 ''/repo/i18n/operator_wizard'' ''en.json'' = Some (Loads (JDict []))"
    by (simp add: lookup_file_def)
  from base_catalog_stop [of ?fs1 "''/repo/i18n/operator_cli''" sample_builtins "Finite (3 / 5)"] h1
  have a: "validate_catalog_dir sample_builtins ?fs1 ''/repo/i18n/operator_cli'' (Finite (3 / 5))
     = Inr [''missing base catalog: '' @ path_join ''/repo/i18n/operator_cli'' ''en.json'']"
    by blast
  from base_catalog_stop [of ?fs2 "''/repo/i18n/operator_wizard''" sample_builtins "Finite (2 / 5)"] h2
  have b: "validate_catalog_dir sample_builtins ?fs2 ''/repo/i18n/operator_wizard'' (Finite (2 / 5))
     = Inr [''base catalog has no keys: '' @ path_join ''/repo/i18n/operator_wizard'' ''en.json'']"
    by blast
  show ?thesis using a b by (simp add: path_join_def)
qed

text \<open>
  C10. A catalog directory that does not exist is reported like a directory without
  \<^verbatim>\<open>en.json\<close>: \<^verbatim>\<open>validate_catalog_dir\<close> returns the one error "missing base catalog"
  and raises nothing, so \<^verbatim>\<open>main\<close> still validates the other directory and reports the
  errors of both.
\<close>

theorem missing_directory_reported:
  assumes "fs p = None"
  shows "validate_catalog_dir bi fs p r = Inr [''missing base catalog: '' @ path_join p ''en.json'']
    \<and> (\<forall>entries. fs' p = Some entries \<and> map_of entries ''en.json'' = None \<longrightarrow>
          validate_catalog_dir bi fs' p r = validate_catalog_dir bi fs p r)
    \<and> (p = cli_dir repo
         \<and> parse_ratio bi environ ''I18N_MAX_SAME_RATIO_OPERATOR_CLI'' (Finite (60 / 100)) = Inr r
         \<and> parse_ratio bi environ ''I18N_MAX_SAME_RATIO_OPERATOR_WIZARD'' (Finite (40 / 100)) = Inr r2
         \<longrightarrow> main bi environ fs repo =
            (case validate_catalog_dir bi fs (wizard_dir repo) r2 of
               Inl exit \<Rightarrow> Inl exit
             | Inr errors2 \<Rightarrow>
                 Inr (report ((''missing base catalog: '' @ path_join p ''en.json'') # errors2))))
    \<and> (p = wizard_dir repo
         \<and> parse_ratio bi environ ''I18N_MAX_SAME_RATIO_OPERATOR_CLI'' (Finite (60 / 100)) = Inr r1
         \<and> parse_ratio bi environ ''I18N_MAX_SAME_RATIO_OPERATOR_WIZARD'' (Finite (40 / 100)) = Inr r
         \<longrightarrow> main bi environ fs repo =
            (case validate_catalog_dir bi fs (cli_dir repo) r1 of
               Inl exit \<Rightarrow> Inl exit
             | Inr errors1 \<Rightarrow>
                 Inr (report (errors1 @ [''missing base catalog: '' @ path_join p ''en.json'']))))"
proof -
  have v: "validate_catalog_dir bi fs p r' =
      Inr [''missing base catalog: '' @ path_join p ''en.json'']" for r'
    using assms by (simp add: validate_catalog_dir_def lookup_file_def)
  have w: "validate_catalog_dir bi fs' p r = validate_catalog_dir bi fs p r"
    if "fs' p = Some entries \<and> map_of entries ''en.json'' = None" for entries
    using that assms by (simp add: validate_catalog_dir_def lookup_file_def)
  show ?thesis
    using v w by (auto simp: main_def split: sum.splits)
qed

theorem missing_directory_reported_witness:
  "main sample_builtins Map.empty
     (map_of [(''/repo/i18n/operator_wizard'',
        [(''en.json'', Loads (JDict [(''a'', JStr ''1''), (''b'', JStr ''2'')])),
         (''de.json'', Loads (JDict [(''a'', JStr ''1''), (''b'', JStr ''2'')]))])])
     ''/repo''
   = Inr ([''[i18n-check] FAILED:'',
           ''  - missing base catalog: /repo/i18n/operator_cli/en.json'',
           ''  - /repo/i18n/operator_wizard/de.json: appears to be a full English clone (2/2)''], 1)"
proof -
  let ?fs = "map_of [(''/repo/i18n/operator_wizard'',
        [(''en.json'', Loads (JDict [(''a'', JStr ''1''), (''b'', JStr ''2'')])),
         (''de.json'', Loads (JDict [(''a'', JStr ''1''), (''b'', JStr ''2'')]))])]"
  have h: "?fs (cli_dir ''/repo'') = None"
    by (simp add: cli_dir_def path_join_def)
  have g: "cli_dir ''/repo'' = cli_dir ''/repo''
     \<and> parse_ratio sample_builtins Map.empty ''I18N_MAX_SAME_RATIO_OPERATOR_CLI'' (Finite (60 / 100))
         = Inr (Finite (60 / 100))
     \<and> parse_ratio sample_builtins Map.empty ''I18N_MAX_SAME_RATIO_OPERATOR_WIZARD'' (Finite (40 / 100))
         = Inr (Finite (40 / 100))"
    by (simp add: parse_ratio_def)
  have a: "main sample_builtins Map.empty ?fs ''/repo'' =
      (case validate_catalog_dir sample_builtins ?fs (wizard_dir ''/repo'') (Finite (40 / 100)) of
         Inl exit \<Rightarrow> Inl exit
       | Inr errors2 \<Rightarrow>
           Inr (report ((''missing base catalog: '' @ path_join (cli_dir ''/repo'') ''en.json'')
                        # errors2)))"
    using missing_directory_reported [where fs = ?fs and p = "cli_dir ''/repo''", OF h,
        THEN conjunct2, THEN conjunct2, THEN conjunct1, THEN mp, OF g] .
  have b: "(case validate_catalog_dir sample_builtins ?fs (wizard_dir ''/repo'') (Finite (40 / 100)) of
         Inl exit \<Rightarrow> Inl exit
       | Inr errors2 \<Rightarrow>
           Inr (report ((''missing base catalog: '' @ path_join (cli_dir ''/repo'') ''en.json'')
                        # errors2)))
      = Inr ([''[i18n-check] FAILED:'',
           ''  - missing base catalog: /repo/i18n/operator_cli/en.json'',
           ''  - /repo/i18n/operator_wizard/de.json: appears to be a full English clone (2/2)''], 1)"
    by code_simp
  show ?thesis using a b by (rule trans)
qed

subsection \<open>Files of the base language\<close>

text \<open>
  C6. A catalog file whose stem starts with \<^verbatim>\<open>en\<close> is skipped: the loop neither loads
  it nor emits an error for it, whatever it holds. Removing such a file (other than
  \<^verbatim>\<open>en.json\<close> itself) from the directory leaves the result of
  \<^verbatim>\<open>validate_catalog_dir\<close> unchanged.
\<close>

theorem base_prefix_skipped:
  assumes "startswith (stem name) ''en''"
  shows "check_locale bi p r base K n (name, f) = Inr []
    \<and> (name \<noteq> ''en.json'' \<and> fs p = Some (es1 @ (name, f) # es2) \<and> fs' p = Some (es1 @ es2)
         \<longrightarrow> validate_catalog_dir bi fs p r = validate_catalog_dir bi fs' p r)"
proof (intro conjI impI)
  show "check_locale bi p r base K n (name, f) = Inr []"
    using assms by (rule check_locale_skip)
next
  assume h: "name \<noteq> ''en.json'' \<and> fs p = Some (es1 @ (name, f) # es2) \<and> fs' p = Some (es1 @ es2)"
  let ?keep = "\<lambda>e :: string \<times> json_file. \<not> startswith (stem (fst e)) ''en''"
  have look: "lookup_file fs p ''en.json'' = lookup_file fs' p ''en.json''"
    using h by (auto simp: lookup_file_def map_add_def split: option.splits)
  have "filter ?keep (sorted_glob fs p) = filter ?keep (sorted_glob fs' p)"
    using h assms by (simp add: sorted_glob_filter)
  then have loop: "locale_loop bi p r base' K' n' (sorted_glob fs p) [] =
      locale_loop bi p r base' K' n' (sorted_glob fs' p) []" for base' K' n'
    using locale_loop_filter_skipped [of bi p r base' K' n' "sorted_glob fs p" "[]"]
      locale_loop_filter_skipped [of bi p r base' K' n' "sorted_glob fs' p" "[]"]
    by simp
  show "validate_catalog_dir bi fs p r = validate_catalog_dir bi fs' p r"
    by (simp add: validate_catalog_dir_def look loop Let_def split: option.splits sum.splits)
qed

theorem base_prefix_skipped_witness:
  "startswith (stem ''en-GB.json'') ''en''
   \<and> validate_catalog_dir sample_builtins
        (map_of [(''/repo/i18n/operator_cli'',
           [(''en.json'', Loads (JDict [(''a'', JStr ''1''), (''b'', JStr ''2'')])),
            (''en-GB.json'', Loads (JDict [(''colour'', JInt 1)])),
            (''fr.json'', Loads (JDict [(''a'', JStr ''un''), (''b'', JStr ''deux'')]))])])
        ''/repo/i18n/operator_cli'' (Finite (3 / 5))
      = Inr []"
proof -
  let ?es1 = "[(''en.json'', Loads (JDict [(''a'', JStr ''1''), (''b'', JStr ''2'')]))]"
  let ?es2 = "[(''fr.json'', Loads (JDict [(''a'', JStr ''un''), (''b'', JStr ''deux'')]))]"
  let ?f = "Loads (JDict [(''colour'', JInt 1)])"
  let ?p = "''/repo/i18n/operator_cli''"
  let ?fs = "map_of [(?p, ?es1 @ (''en-GB.json'', ?f) # ?es2)]"
  let ?fs' = "map_of [(?p, ?es1 @ ?es2)]"
  have h: "startswith (stem ''en-GB.json'') ''en''"
    by (simp add: stem_def startswith_def)
  have g: "''en-GB.json'' \<noteq> ''en.json'' \<and> ?fs ?p = Some (?es1 @ (''en-GB.json'', ?f) # ?es2)
      \<and> ?fs' ?p = Some (?es1 @ ?es2)"
    by simp
  have a: "validate_catalog_dir sample_builtins ?fs ?p (Finite (3 / 5)) =
      validate_catalog_dir sample_builtins ?fs' ?p (Finite (3 / 5))"
    using base_prefix_skipped [where fs = ?fs and fs' = ?fs' and p = ?p and ?es1.0 = ?es1
        and ?es2.0 = ?es2 and f = ?f, OF h, THEN conjunct2, THEN mp, OF g] .
  have b: "validate_catalog_dir sample_builtins ?fs' ?p (Finite (3 / 5)) = Inr []"
    by code_simp
  have c: "validate_catalog_dir sample_builtins ?fs ?p (Finite (3 / 5)) = Inr []"
    using a b by (rule trans)
  show ?thesis using h c by simp
qed

subsection \<open>Locale files\<close>

text \<open>
  The loop hands its errors on from file to file and returns them all: run with the
  errors collected so far, it returns these followed by the errors it would return
  when run with none.
\<close>

lemma locale_loop_acc:
  "locale_loop bi p r base K n xs errors =
     (case locale_loop bi p r base K n xs [] of
        Inl exit \<Rightarrow> Inl exit
      | Inr new \<Rightarrow> Inr (errors @ new))"
proof (induction xs arbitrary: errors)
  case Nil
  show ?case by simp
next
  case (Cons e xs)
  show ?case
  proof (cases "check_locale bi p r base K n e")
    case (Inl exit)
    then show ?thesis by simp
  next
    case (Inr new)
    have a: "locale_loop bi p r base K n xs (errors @ new) =
        (case locale_loop bi p r base K n xs [] of
           Inl exit \<Rightarrow> Inl exit
         | Inr k \<Rightarrow> Inr ((errors @ new) @ k))"
      by (rule Cons.IH)
    have b: "locale_loop bi p r base K n xs new =
        (case locale_loop bi p r base K n xs [] of
           Inl exit \<Rightarrow> Inl exit
         | Inr k \<Rightarrow> Inr (new @ k))"
      by (rule Cons.IH)
    show ?thesis
      using Inr a b by (simp split: sum.splits)
  qed
qed

lemma validate_catalog_dir_contribution:
  assumes "lookup_file fs p ''en.json'' = Some bf"
    and "load_json (path_join p ''en.json'') bf = Inr base"
    and "base \<noteq> []"
    and "sorted_glob fs p = before @ entry # rest"
    and "check_locale bi p r base (set (map fst base)) (card (set (map fst base))) entry = Inr new"
  shows "validate_catalog_dir bi fs p r =
     (case locale_loop bi p r base (set (map fst base)) (card (set (map fst base))) before [] of
        Inl exit \<Rightarrow> Inl exit
      | Inr es1 \<Rightarrow>
          (case locale_loop bi p r base (set (map fst base)) (card (set (map fst base))) rest [] of
             Inl exit \<Rightarrow> Inl exit
           | Inr es2 \<Rightarrow> Inr (es1 @ new @ es2)))"
proof -
  have "locale_loop bi p r base (set (map fst base)) (card (set (map fst base))) rest (es1 @ new) =
      (case locale_loop bi p r base (set (map fst base)) (card (set (map fst base))) rest [] of
         Inl exit \<Rightarrow> Inl exit
       | Inr es2 \<Rightarrow> Inr (es1 @ new @ es2))" for es1
    using locale_loop_acc [of bi p r base "set (map fst base)" "card (set (map fst base))" rest
        "es1 @ new"]
    by (simp del: set_map split: sum.splits)
  then show ?thesis
    using validate_catalog_dir_split [OF assms]
    by (simp del: set_map cong: sum.case_cong)
qed

lemma contribution_member:
  assumes "v = (case a of Inl exit \<Rightarrow> Inl exit
            | Inr es1 \<Rightarrow> (case b of Inl exit \<Rightarrow> Inl exit | Inr es2 \<Rightarrow> Inr (es1 @ new @ es2)))"
    and "v = Inr errs"
  shows "set new \<subseteq> set errs"
  using assms by (auto split: sum.splits)

text \<open>
  In the next three theorems the directory has a base catalog \<open>base\<close> with at least
  one key, and \<open>(name, f)\<close> is a locale file that the loop reaches after the files
  \<open>before\<close> and ahead of the files \<open>rest\<close>. Unless a file of \<open>before\<close> or of \<open>rest\<close>
  raises SystemExit, \<^verbatim>\<open>validate_catalog_dir\<close> returns the errors of the files of
  \<open>before\<close>, then the errors of this file, then the errors of the files of \<open>rest\<close>.
\<close>

text \<open>
  C2. A locale file with the keys of the base and the same value under every key
  contributes exactly one error to the list that \<^verbatim>\<open>validate_catalog_dir\<close> returns, the
  error "appears to be a full English clone", for every threshold, also one that the
  ratio of identical values exceeds. That error is in the returned list, and it is
  not a "too many English-identical values" error.
\<close>

theorem clone_precedence:
  fixes base data :: pydict
  defines "key_total \<equiv> card (set (map fst base))"
  defines "clone_error \<equiv> (\<lambda>locale_file. locale_file @ '': appears to be a full English clone (''
                   @ str_nat key_total @ ''/'' @ str_nat key_total @ '')'')"
  assumes "lookup_file fs p ''en.json'' = Some bf"
    and "load_json (path_join p ''en.json'') bf = Inr base"
    and "base \<noteq> []"
    and "sorted_glob fs p = before @ (name, f) # rest"
    and "\<not> startswith (stem name) ''en''"
    and "load_json (path_join p name) f = Inr data"
    and "set (map fst data) = set (map fst base)"
    and "\<forall>key\<in>set (map fst base). map_of data key = map_of base key"
  shows "validate_catalog_dir bi fs p r =
     (case locale_loop bi p r base (set (map fst base)) key_total before [] of
        Inl exit \<Rightarrow> Inl exit
      | Inr es1 \<Rightarrow>
          (case locale_loop bi p r base (set (map fst base)) key_total rest [] of
             Inl exit \<Rightarrow> Inl exit
           | Inr es2 \<Rightarrow> Inr (es1 @ [clone_error (path_join p name)] @ es2)))
    \<and> (\<forall>errs. validate_catalog_dir bi fs p r = Inr errs \<longrightarrow>
          clone_error (path_join p name) \<in> set errs)
    \<and> (\<forall>t. clone_error (path_join p name)
            \<noteq> path_join p name @ '': too many English-identical values ('' @ t)"
proof -
  have same: "card {key \<in> set (map fst base). map_of data key = map_of base key} = key_total"
    unfolding key_total_def using assms(10) by (subst card_same_eq_total) (simp_all del: set_map)
  have cl: "check_locale bi p r base (set (map fst base)) key_total (name, f) =
      Inr [clone_error (path_join p name)]"
    using check_locale_parity [OF assms(7,8) _ assms(9), of bi r base key_total] same
    by (simp add: Let_def clone_error_def del: set_map)
  have eq: "validate_catalog_dir bi fs p r =
     (case locale_loop bi p r base (set (map fst base)) key_total before [] of
        Inl exit \<Rightarrow> Inl exit
      | Inr es1 \<Rightarrow>
          (case locale_loop bi p r base (set (map fst base)) key_total rest [] of
             Inl exit \<Rightarrow> Inl exit
           | Inr es2 \<Rightarrow> Inr (es1 @ [clone_error (path_join p name)] @ es2)))"
    unfolding key_total_def
    by (rule validate_catalog_dir_contribution [OF assms(3-6) cl [unfolded key_total_def]])
  have mem: "clone_error (path_join p name) \<in> set errs"
    if "validate_catalog_dir bi fs p r = Inr errs" for errs
    using contribution_member [OF eq that] by simp
  have ne: "clone_error (path_join p name)
            \<noteq> path_join p name @ '': too many English-identical values ('' @ t" for t
    by (simp add: clone_error_def)
  show ?thesis
    using eq mem ne by blast
qed

theorem clone_precedence_witness:
  "float_gt (true_div sample_builtins 2 2) (Finite (1 / 2))
   \<and> validate_catalog_dir sample_builtins
        (map_of [(''/repo/i18n/operator_cli'',
           [(''fr.json'', Loads (JDict [(''a'', JStr ''un''), (''b'', JStr ''deux'')])),
            (''en.json'', Loads (JDict [(''a'', JStr ''1''), (''b'', JStr ''2'')])),
            (''de.json'', Loads (JDict [(''b'', JStr ''2''), (''a'', JStr ''1'')])),
            (''bb.json'', Loads (JDict [(''a'', JStr ''1''), (''b'', JStr ''2''), (''c'', JStr ''3'')])),
            (''aa.json'', Loads (JDict [(''a'', JStr ''1'')]))])])
        ''/repo/i18n/operator_cli'' (Finite (1 / 2))
      = Inr [''/repo/i18n/operator_cli/aa.json: key mismatch (missing=1)'',
             ''/repo/i18n/operator_cli/bb.json: key mismatch (extra=1)'',
             ''/repo/i18n/operator_cli/de.json: appears to be a full English clone (2/2)'']"
proof -
  let ?base = "[(''a'', JStr ''1''), (''b'', JStr ''2'')]"
  let ?data = "[(''b'', JStr ''2''), (''a'', JStr ''1'')]"
  let ?aa = "(''aa.json'', Loads (JDict [(''a'', JStr ''1'')]))"
  let ?bb = "(''bb.json'', Loads (JDict [(''a'', JStr ''1''), (''b'', JStr ''2''), (''c'', JStr ''3'')]))"
  let ?fr = "(''fr.json'', Loads (JDict [(''a'', JStr ''un''), (''b'', JStr ''deux'')]))"
  let ?en = "(''en.json'', Loads (JDict ?base))"
  let ?p = "''/repo/i18n/operator_cli''"
  let ?fs = "map_of [(?p, [?fr, ?en, (''de.json'', Loads (JDict ?data)), ?bb, ?aa])]"
  have h1: "lookup_file ?fs ?p ''en.json'' = Some (Loads (JDict ?base))"
    by (simp add: lookup_file_def)
  have h2: "load_json (path_join ?p ''en.json'') (Loads (JDict ?base)) = Inr ?base"
    by (simp add: load_json_def)
  have h3: "?base \<noteq> []" by simp
  have h4: "sorted_glob ?fs ?p = [?aa, ?bb] @ (''de.json'', Loads (JDict ?data)) # [?en, ?fr]"
    by (simp add: sorted_glob_def glob_json_def endswith_def)
  have h5: "\<not> startswith (stem ''de.json'') ''en''"
    by (simp add: stem_def startswith_def)
  have h6: "load_json (path_join ?p ''de.json'') (Loads (JDict ?data)) = Inr ?data"
    by (simp add: load_json_def)
  have h7: "set (map fst ?data) = set (map fst ?base)" by auto
  have h8: "\<forall>key\<in>set (map fst ?base). map_of ?data key = map_of ?base key" by simp
  have g: "float_gt (true_div sample_builtins 2 2) (Finite (1 / 2))"
    by (simp add: sample_builtins_def float_gt_def)
  note a = clone_precedence [OF h1 h2 h3 h4 h5 h6 h7 h8, THEN conjunct1]
  have c: "validate_catalog_dir sample_builtins ?fs ?p (Finite (1 / 2))
      = Inr [''/repo/i18n/operator_cli/aa.json: key mismatch (missing=1)'',
             ''/repo/i18n/operator_cli/bb.json: key mismatch (extra=1)'',
             ''/repo/i18n/operator_cli/de.json: appears to be a full English clone (2/2)'']"
    by (subst a) code_simp
  show ?thesis using g c by (rule conjI)
qed

text \<open>
  C3. A locale file with the keys of the base that differs from it in some value
  contributes the error "too many English-identical values" to the list that
  \<^verbatim>\<open>validate_catalog_dir\<close> returns exactly when \<^verbatim>\<open>same / key_total\<close> is strictly greater
  than the threshold, and nothing otherwise; when it is greater the error is in the
  returned list, and a ratio equal to the threshold contributes nothing. With the base
  \<^verbatim>\<open>{"a":"1","b":"2"}\<close>, the locale \<^verbatim>\<open>{"a":"1","b":"X"}\<close> and the threshold 0.5 no error
  is returned.
\<close>

theorem ratio_test_strict:
  fixes base data :: pydict
  defines "key_total \<equiv> card (set (map fst base))"
    and "same \<equiv> card {key \<in> set (map fst base). map_of data key = map_of base key}"
  defines "breach_error \<equiv> (\<lambda>bi locale_file r.
              locale_file @ '': too many English-identical values (''
                @ str_nat same @ ''/'' @ str_nat key_total @ '' = ''
                @ fmt_pct1 bi (true_div bi same key_total) @ '', max '' @ fmt_pct1 bi r @ '')'')"
  assumes "lookup_file fs p ''en.json'' = Some bf"
    and "load_json (path_join p ''en.json'') bf = Inr base"
    and "base \<noteq> []"
    and "sorted_glob fs p = before @ (name, f) # rest"
    and "\<not> startswith (stem name) ''en''"
    and "load_json (path_join p name) f = Inr data"
    and "set (map fst data) = set (map fst base)"
    and "\<exists>key\<in>set (map fst base). map_of data key \<noteq> map_of base key"
  shows "validate_catalog_dir bi fs p r =
     (case locale_loop bi p r base (set (map fst base)) key_total before [] of
        Inl exit \<Rightarrow> Inl exit
      | Inr es1 \<Rightarrow>
          (case locale_loop bi p r base (set (map fst base)) key_total rest [] of
             Inl exit \<Rightarrow> Inl exit
           | Inr es2 \<Rightarrow>
               Inr (es1 @ (if float_gt (true_div bi same key_total) r
                           then [breach_error bi (path_join p name) r] else []) @ es2)))
    \<and> (float_gt (true_div bi same key_total) r \<longrightarrow>
          (\<forall>errs. validate_catalog_dir bi fs p r = Inr errs \<longrightarrow>
             breach_error bi (path_join p name) r \<in> set errs))
    \<and> (true_div bi same key_total = r \<longrightarrow>
          validate_catalog_dir bi fs p r =
            (case locale_loop bi p r base (set (map fst base)) key_total before [] of
               Inl exit \<Rightarrow> Inl exit
             | Inr es1 \<Rightarrow>
                 (case locale_loop bi p r base (set (map fst base)) key_total rest [] of
                    Inl exit \<Rightarrow> Inl exit
                  | Inr es2 \<Rightarrow> Inr (es1 @ es2))))"
proof -
  have ne: "same \<noteq> key_total"
    unfolding same_def key_total_def using assms(11)
    by (subst card_same_eq_total) (simp_all del: set_map)
  have cl: "check_locale bi p r base (set (map fst base)) key_total (name, f) =
      Inr (if float_gt (true_div bi same key_total) r
           then [breach_error bi (path_join p name) r] else [])"
    using check_locale_parity [OF assms(8,9) _ assms(10), of bi r base key_total] ne
    unfolding same_def breach_error_def by (simp add: Let_def del: set_map)
  have eq: "validate_catalog_dir bi fs p r =
     (case locale_loop bi p r base (set (map fst base)) key_total before [] of
        Inl exit \<Rightarrow> Inl exit
      | Inr es1 \<Rightarrow>
          (case locale_loop bi p r base (set (map fst base)) key_total rest [] of
             Inl exit \<Rightarrow> Inl exit
           | Inr es2 \<Rightarrow>
               Inr (es1 @ (if float_gt (true_div bi same key_total) r
                           then [breach_error bi (path_join p name) r] else []) @ es2)))"
    unfolding key_total_def
    by (rule validate_catalog_dir_contribution [OF assms(4-7) cl [unfolded key_total_def]])
  have mem: "breach_error bi (path_join p name) r \<in> set errs"
    if "float_gt (true_div bi same key_total) r" and "validate_catalog_dir bi fs p r = Inr errs"
    for errs
    using contribution_member [OF eq that(2)] that(1) by simp
  have irrefl: "\<not> float_gt r r"
    by (cases r) (simp_all add: float_gt_def)
  have pass: "validate_catalog_dir bi fs p r =
            (case locale_loop bi p r base (set (map fst base)) key_total before [] of
               Inl exit \<Rightarrow> Inl exit
             | Inr es1 \<Rightarrow>
                 (case locale_loop bi p r base (set (map fst base)) key_total rest [] of
                    Inl exit \<Rightarrow> Inl exit
                  | Inr es2 \<Rightarrow> Inr (es1 @ es2)))"
    if "true_div bi same key_total = r"
  proof -
    from that cl irrefl
    have "check_locale bi p r base (set (map fst base)) key_total (name, f) = Inr []"
      by simp
    then show ?thesis
      unfolding key_total_def
      using validate_catalog_dir_contribution [OF assms(4-7), of bi r "[]"]
      by (simp del: set_map cong: sum.case_cong)
  qed
  show ?thesis
    using eq mem pass by blast
qed

theorem ratio_test_strict_witness:
  "validate_catalog_dir sample_builtins
        (map_of [(''/repo/i18n/operator_cli'',
           [(''fr.json'', Loads (JDict [(''a'', JStr ''1''), (''b'', JStr ''X'')])),
            (''en.json'', Loads (JDict [(''a'', JStr ''1''), (''b'', JStr ''2'')]))])])
        ''/repo/i18n/operator_cli'' (Finite (1 / 2))
      = Inr []
   \<and> validate_catalog_dir sample_builtins
        (map_of [(''/repo/i18n/operator_cli'',
           [(''zz.json'', Loads (JDict [(''a'', JStr ''1''), (''b'', JStr ''2'')])),
            (''fr.json'', Loads (JDict [(''a'', JStr ''1''), (''b'', JStr ''X'')])),
            (''en.json'', Loads (JDict [(''a'', JStr ''1''), (''b'', JStr ''2'')])),
            (''bb.json'', Loads (JDict [(''a'', JStr ''1''), (''b'', JStr ''2''), (''c'', JStr ''3'')])),
            (''aa.json'', Loads (JDict [(''a'', JStr ''1'')]))])])
        ''/repo/i18n/operator_cli'' (Finite (2 / 5))
      = Inr [''/repo/i18n/operator_cli/aa.json: key mismatch (missing=1)'',
             ''/repo/i18n/operator_cli/bb.json: key mismatch (extra=1)'',
             ''/repo/i18n/operator_cli/fr.json: too many English-identical values (1/2 = 50.0%, max 40.0%)'',
             ''/repo/i18n/operator_cli/zz.json: appears to be a full English clone (2/2)'']"
proof -
  let ?base = "[(''a'', JStr ''1''), (''b'', JStr ''2'')]"
  let ?data = "[(''a'', JStr ''1''), (''b'', JStr ''X'')]"
  let ?aa = "(''aa.json'', Loads (JDict [(''a'', JStr ''1'')]))"
  let ?bb = "(''bb.json'', Loads (JDict [(''a'', JStr ''1''), (''b'', JStr ''2''), (''c'', JStr ''3'')]))"
  let ?zz = "(''zz.json'', Loads (JDict ?base))"
  let ?en = "(''en.json'', Loads (JDict ?base))"
  let ?fr = "(''fr.json'', Loads (JDict ?data))"
  let ?p = "''/repo/i18n/operator_cli''"
  let ?fs1 = "map_of [(?p, [?fr, ?en])]"
  let ?fs2 = "map_of [(?p, [?zz, ?fr, ?en, ?bb, ?aa])]"
  have h1: "lookup_file ?fs1 ?p ''en.json'' = Some (Loads (JDict ?base))"
    by (simp add: lookup_file_def)
  have k1: "lookup_file ?fs2 ?p ''en.json'' = Some (Loads (JDict ?base))"
    by (simp add: lookup_file_def)
  have h2: "load_json (path_join ?p ''en.json'') (Loads (JDict ?base)) = Inr ?base"
    by (simp add: load_json_def)
  have h3: "?base \<noteq> []" by simp
  have h4: "sorted_glob ?fs1 ?p = [?en] @ ?fr # []"
    by (simp add: sorted_glob_def glob_json_def endswith_def)
  have k4: "sorted_glob ?fs2 ?p = [?aa, ?bb, ?en] @ ?fr # [?zz]"
    by (simp add: sorted_glob_def glob_json_def endswith_def)
  have h5: "\<not> startswith (stem ''fr.json'') ''en''"
    by (simp add: stem_def startswith_def)
  have h6: "load_json (path_join ?p ''fr.json'') (Loads (JDict ?data)) = Inr ?data"
    by (simp add: load_json_def)
  have h7: "set (map fst ?data) = set (map fst ?base)" by simp
  have h8: "\<exists>key\<in>set (map fst ?base). map_of ?data key \<noteq> map_of ?base key" by simp
  note a = ratio_test_strict [OF h1 h2 h3 h4 h5 h6 h7 h8, THEN conjunct1]
  note b = ratio_test_strict [OF k1 h2 h3 k4 h5 h6 h7 h8, THEN conjunct1]
  have c1: "validate_catalog_dir sample_builtins ?fs1 ?p (Finite (1 / 2)) = Inr []"
    by (subst a) code_simp
  have c2: "validate_catalog_dir sample_builtins ?fs2 ?p (Finite (2 / 5))
      = Inr [''/repo/i18n/operator_cli/aa.json: key mismatch (missing=1)'',
             ''/repo/i18n/operator_cli/bb.json: key mismatch (extra=1)'',
             ''/repo/i18n/operator_cli/fr.json: too many English-identical values (1/2 = 50.0%, max 40.0%)'',
             ''/repo/i18n/operator_cli/zz.json: appears to be a full English clone (2/2)'']"
    by (subst b) code_simp
  show ?thesis using c1 c2 by (rule conjI)
qed

text \<open>
  C4. A locale file whose key set differs from the base's contributes exactly one
  error to the list that \<^verbatim>\<open>validate_catalog_dir\<close> returns, "key mismatch", with the
  number of missing keys and the number of extra keys, each only when it is not zero
  (one of them is not). That error is in the returned list; no clone or ratio error is
  added for the file, and the loop goes on with the files after it.
\<close>

theorem key_mismatch_reported:
  fixes base data :: pydict
  defines "key_total \<equiv> card (set (map fst base))"
    and "missing \<equiv> card (set (map fst base) - set (map fst data))"
    and "extra \<equiv> card (set (map fst data) - set (map fst base))"
  defines "mismatch_error \<equiv> (\<lambda>locale_file.
              locale_file @ '': key mismatch (''
                @ join '', ''
                    ((if 0 < missing then [''missing='' @ str_nat missing] else [])
                     @ (if 0 < extra then [''extra='' @ str_nat extra] else []))
                @ '')'')"
  assumes "lookup_file fs p ''en.json'' = Some bf"
    and "load_json (path_join p ''en.json'') bf = Inr base"
    and "base \<noteq> []"
    and "sorted_glob fs p = before @ (name, f) # rest"
    and "\<not> startswith (stem name) ''en''"
    and "load_json (path_join p name) f = Inr data"
    and "set (map fst data) \<noteq> set (map fst base)"
  shows "validate_catalog_dir bi fs p r =
     (case locale_loop bi p r base (set (map fst base)) key_total before [] of
        Inl exit \<Rightarrow> Inl exit
      | Inr es1 \<Rightarrow>
          (case locale_loop bi p r base (set (map fst base)) key_total rest [] of
             Inl exit \<Rightarrow> Inl exit
           | Inr es2 \<Rightarrow> Inr (es1 @ [mismatch_error (path_join p name)] @ es2)))
    \<and> (\<forall>errs. validate_catalog_dir bi fs p r = Inr errs \<longrightarrow>
          mismatch_error (path_join p name) \<in> set errs)
    \<and> 0 < missing + extra"
proof -
  have cl: "check_locale bi p r base (set (map fst base)) key_total (name, f) =
      Inr [mismatch_error (path_join p name)]"
    unfolding missing_def extra_def mismatch_error_def
    using check_locale_mismatch [OF assms(9,10) _ assms(11), of bi r base key_total]
    by (simp del: set_map)
  have pos: "0 < missing + extra"
  proof -
    have "set (map fst base) - set (map fst data) \<noteq> {}
        \<or> set (map fst data) - set (map fst base) \<noteq> {}"
      using assms(11) by blast
    then show ?thesis
      unfolding missing_def extra_def by (auto simp: card_gt_0_iff)
  qed
  have eq: "validate_catalog_dir bi fs p r =
     (case locale_loop bi p r base (set (map fst base)) key_total before [] of
        Inl exit \<Rightarrow> Inl exit
      | Inr es1 \<Rightarrow>
          (case locale_loop bi p r base (set (map fst base)) key_total rest [] of
             Inl exit \<Rightarrow> Inl exit
           | Inr es2 \<Rightarrow> Inr (es1 @ [mismatch_error (path_join p name)] @ es2)))"
    unfolding key_total_def
    by (rule validate_catalog_dir_contribution [OF assms(5-8) cl [unfolded key_total_def]])
  have mem: "mismatch_error (path_join p name) \<in> set errs"
    if "validate_catalog_dir bi fs p r = Inr errs" for errs
    using contribution_member [OF eq that] by simp
  show ?thesis
    using eq mem pos by blast
qed

theorem key_mismatch_reported_witness:
  "validate_catalog_dir sample_builtins
        (map_of [(''/repo/i18n/operator_cli'',
           [(''en.json'', Loads (JDict [(''a'', JStr ''1''), (''b'', JStr ''2'')])),
            (''bb.json'', Loads (JDict [(''a'', JStr ''1''), (''b'', JStr ''2'')])),
            (''fr.json'', Loads (JDict [(''a'', JStr ''1''), (''c'', JStr ''2'')])),
            (''aa.json'', Loads (JDict [(''a'', JStr ''1''), (''b'', JStr ''2'')])),
            (''it.json'', Loads (JDict [(''a'', JStr ''1''), (''b'', JStr ''2'')]))])])
        ''/repo/i18n/operator_cli'' (Finite 0)
      = Inr [''/repo/i18n/operator_cli/aa.json: appears to be a full English clone (2/2)'',
             ''/repo/i18n/operator_cli/bb.json: appears to be a full English clone (2/2)'',
             ''/repo/i18n/operator_cli/fr.json: key mismatch (missing=1, extra=1)'',
             ''/repo/i18n/operator_cli/it.json: appears to be a full English clone (2/2)'']"
proof -
  let ?base = "[(''a'', JStr ''1''), (''b'', JStr ''2'')]"
  let ?data = "[(''a'', JStr ''1''), (''c'', JStr ''2'')]"
  let ?p = "''/repo/i18n/operator_cli''"
  let ?fs = "map_of [(?p, [(''en.json'', Loads (JDict ?base)), (''bb.json'', Loads (JDict ?base)),
                (''fr.json'', Loads (JDict ?data)), (''aa.json'', Loads (JDict ?base)),
                (''it.json'', Loads (JDict ?base))])]"
  have h1: "lookup_file ?fs ?p ''en.json'' = Some (Loads (JDict ?base))"
    by (simp add: lookup_file_def)
  have h2: "load_json (path_join ?p ''en.json'') (Loads (JDict ?base)) = Inr ?base"
    by (simp add: load_json_def)
  have h3: "?base \<noteq> []" by simp
  have h4: "sorted_glob ?fs ?p =
      [(''aa.json'', Loads (JDict ?base)), (''bb.json'', Loads (JDict ?base)),
       (''en.json'', Loads (JDict ?base))] @ (''fr.json'', Loads (JDict ?data))
        # [(''it.json'', Loads (JDict ?base))]"
    by (simp add: sorted_glob_def glob_json_def endswith_def)
  have h5: "\<not> startswith (stem ''fr.json'') ''en''"
    by (simp add: stem_def startswith_def)
  have h6: "load_json (path_join ?p ''fr.json'') (Loads (JDict ?data)) = Inr ?data"
    by (simp add: load_json_def)
  have h7: "set (map fst ?data) \<noteq> set (map fst ?base)"
  proof
    assume "set (map fst ?data) = set (map fst ?base)"
    moreover have "''c'' \<in> set (map fst ?data)" by simp
    ultimately have "''c'' \<in> set (map fst ?base)" by (rule subst)
    then show False by simp
  qed
  note a = key_mismatch_reported [OF h1 h2 h3 h4 h5 h6 h7, THEN conjunct1]
  show ?thesis
    by (subst a) code_simp
qed

subsection \<open>Catalogs with values that are not strings\<close>

lemma load_json_non_string:
  fixes items :: pydict
  assumes "(k0, v0) \<in> set items" and "\<not> is_str v0"
  shows "load_json p (Loads (JDict items)) =
     Inl (SystemExit (''catalog '' @ p @ '' has non-string values for keys: ''
            @ join '', '' (take 5 [k. (k, v) \<leftarrow> items, \<not> is_str v])))"
proof -
  have "k0 \<in> set [k. (k, v) \<leftarrow> items, \<not> is_str v]"
    using assms by force
  then have "[k. (k, v) \<leftarrow> items, \<not> is_str v] \<noteq> []"
    by (metis empty_iff empty_set)
  then show ?thesis
    by (simp add: load_json_def Let_def)
qed

lemma check_locale_fatal:
  assumes "\<not> startswith (stem name) ''en''"
    and "load_json (path_join p name) f = Inl exit"
  shows "check_locale bi p r base K n (name, f) = Inl exit"
  using assms by (simp add: check_locale_def Let_def)

lemma locale_loop_fatal:
  assumes "check_locale bi p r base K n entry = Inl exit"
    and "locale_loop bi p r base K n before errors = Inr es"
  shows "locale_loop bi p r base K n (before @ entry # rest) errors = Inl exit"
  using assms by (simp add: locale_loop_append)

text \<open>
  C8. When the object parsed from a catalog file has a value that is not a string,
  \<^verbatim>\<open>load_json\<close> raises SystemExit; the message names the file and lists the first five
  offending keys, in the order of the object, and no more. The exit leaves
  \<^verbatim>\<open>validate_catalog_dir\<close> and \<^verbatim>\<open>main\<close> wherever the file is loaded: as the base
  catalog or as a locale file that the loop reaches, in the CLI directory or in the
  wizard directory. The errors collected up to that file are not reported.
\<close>

theorem non_string_values_fatal:
  fixes items :: pydict
  defines "message \<equiv> (\<lambda>p. ''catalog '' @ p @ '' has non-string values for keys: ''
            @ join '', '' (take 5 [k. (k, v) \<leftarrow> items, \<not> is_str v]))"
  defines "loaded \<equiv> (\<lambda>bi fs d r fname.
            (fname = ''en.json'' \<and> lookup_file fs d ''en.json'' = Some (Loads (JDict items)))
            \<or> (\<exists>bf base before rest es.
                  lookup_file fs d ''en.json'' = Some bf
                  \<and> load_json (path_join d ''en.json'') bf = Inr base \<and> base \<noteq> []
                  \<and> sorted_glob fs d = before @ (fname, Loads (JDict items)) # rest
                  \<and> \<not> startswith (stem fname) ''en''
                  \<and> locale_loop bi d r base (set (map fst base)) (card (set (map fst base)))
                        before [] = Inr es))"
  assumes "(k0, v0) \<in> set items" and "\<not> is_str v0"
  shows "load_json p (Loads (JDict items)) = Inl (SystemExit (message p))
    \<and> (\<forall>d r fname. loaded bi fs d r fname \<longrightarrow>
          validate_catalog_dir bi fs d r = Inl (SystemExit (message (path_join d fname))))
    \<and> (\<forall>r1 r2 fname.
          parse_ratio bi environ ''I18N_MAX_SAME_RATIO_OPERATOR_CLI'' (Finite (60 / 100)) = Inr r1
          \<and> parse_ratio bi environ ''I18N_MAX_SAME_RATIO_OPERATOR_WIZARD'' (Finite (40 / 100)) = Inr r2
          \<and> loaded bi fs (cli_dir repo) r1 fname
          \<longrightarrow> main bi environ fs repo
                = Inl (SystemExit (message (path_join (cli_dir repo) fname))))
    \<and> (\<forall>r1 r2 errors1 fname.
          parse_ratio bi environ ''I18N_MAX_SAME_RATIO_OPERATOR_CLI'' (Finite (60 / 100)) = Inr r1
          \<and> parse_ratio bi environ ''I18N_MAX_SAME_RATIO_OPERATOR_WIZARD'' (Finite (40 / 100)) = Inr r2
          \<and> validate_catalog_dir bi fs (cli_dir repo) r1 = Inr errors1
          \<and> loaded bi fs (wizard_dir repo) r2 fname
          \<longrightarrow> main bi environ fs repo
                = Inl (SystemExit (message (path_join (wizard_dir repo) fname))))"
proof -
  have l: "load_json q (Loads (JDict items)) = Inl (SystemExit (message q))" for q
    unfolding message_def using assms(3,4) by (rule load_json_non_string)
  have v: "validate_catalog_dir bi fs d r = Inl (SystemExit (message (path_join d fname)))"
    if ld: "loaded bi fs d r fname" for d r fname
  proof -
    from ld consider
      (in_base) "fname = ''en.json''" "lookup_file fs d ''en.json'' = Some (Loads (JDict items))"
      | (in_loop) bf base before rest es where
        "lookup_file fs d ''en.json'' = Some bf"
        "load_json (path_join d ''en.json'') bf = Inr base" "base \<noteq> []"
        "sorted_glob fs d = before @ (fname, Loads (JDict items)) # rest"
        "\<not> startswith (stem fname) ''en''"
        "locale_loop bi d r base (set (map fst base)) (card (set (map fst base))) before [] = Inr es"
      unfolding loaded_def by blast
    then show ?thesis
    proof cases
      case in_base
      then show ?thesis using l by (simp add: validate_catalog_dir_def)
    next
      case in_loop
      have "check_locale bi d r base (set (map fst base)) (card (set (map fst base)))
          (fname, Loads (JDict items)) = Inl (SystemExit (message (path_join d fname)))"
        using in_loop(5) l by (rule check_locale_fatal)
      then have "locale_loop bi d r base (set (map fst base)) (card (set (map fst base)))
          (before @ (fname, Loads (JDict items)) # rest) []
          = Inl (SystemExit (message (path_join d fname)))"
        using in_loop(6) by (rule locale_loop_fatal)
      then show ?thesis
        using in_loop(1-4) by (simp add: validate_catalog_dir_loop del: set_map)
    qed
  qed
  have m1: "main bi environ fs repo = Inl (SystemExit (message (path_join (cli_dir repo) fname)))"
    if "parse_ratio bi environ ''I18N_MAX_SAME_RATIO_OPERATOR_CLI'' (Finite (60 / 100)) = Inr r1"
      and "parse_ratio bi environ ''I18N_MAX_SAME_RATIO_OPERATOR_WIZARD'' (Finite (40 / 100)) = Inr r2"
      and "loaded bi fs (cli_dir repo) r1 fname"
    for r1 r2 fname
    using that(1,2) v [OF that(3)] by (simp add: main_def)
  have m2: "main bi environ fs repo = Inl (SystemExit (message (path_join (wizard_dir repo) fname)))"
    if "parse_ratio bi environ ''I18N_MAX_SAME_RATIO_OPERATOR_CLI'' (Finite (60 / 100)) = Inr r1"
      and "parse_ratio bi environ ''I18N_MAX_SAME_RATIO_OPERATOR_WIZARD'' (Finite (40 / 100)) = Inr r2"
      and "validate_catalog_dir bi fs (cli_dir repo) r1 = Inr errors1"
      and "loaded bi fs (wizard_dir repo) r2 fname"
    for r1 r2 errors1 fname
    using that(1-3) v [OF that(4)] by (simp add: main_def)
  show ?thesis
    using l v m1 m2 by blast
qed

theorem non_string_values_fatal_witness:
  "main sample_builtins Map.empty
     (map_of [(''/repo/i18n/operator_cli'',
        [(''en.json'', Loads (JDict [(''a'', JStr ''1'')])),
         (''fr.json'', Loads (JDict [(''k1'', JInt 1), (''k2'', JStr ''ok''), (''k3'', JNull),
            (''k4'', JBool True), (''k5'', JList []), (''k6'', JDict []), (''k7'', JInt 7)])),
         (''de.json'', Loads (JDict [(''a'', JStr ''1'')]))]),
       (''/repo/i18n/operator_wizard'',
        [(''en.json'', Loads (JDict [(''a'', JStr ''1'')]))])])
     ''/repo''
   = Inl (SystemExit ''catalog /repo/i18n/operator_cli/fr.json has non-string values for keys: k1, k3, k4, k5, k6'')
   \<and> main sample_builtins Map.empty
     (map_of [(''/repo/i18n/operator_cli'',
        [(''en.json'', Loads (JDict [(''a'', JStr ''1'')])),
         (''de.json'', Loads (JDict [(''a'', JStr ''1'')]))]),
       (''/repo/i18n/operator_wizard'',
        [(''en.json'', Loads (JDict [(''k1'', JInt 1), (''k2'', JStr ''ok''), (''k3'', JNull),
            (''k4'', JBool True), (''k5'', JList []), (''k6'', JDict []), (''k7'', JInt 7)]))])])
     ''/repo''
   = Inl (SystemExit ''catalog /repo/i18n/operator_wizard/en.json has non-string values for keys: k1, k3, k4, k5, k6'')"
proof -
  let ?items = "[(''k1'', JInt 1), (''k2'', JStr ''ok''), (''k3'', JNull),
            (''k4'', JBool True), (''k5'', JList []), (''k6'', JDict []), (''k7'', JInt 7)]"
  let ?en = "(''en.json'', Loads (JDict [(''a'', JStr ''1'')]))"
  let ?de = "(''de.json'', Loads (JDict [(''a'', JStr ''1'')]))"
  let ?fs1 = "map_of [(''/repo/i18n/operator_cli'', [?en, (''fr.json'', Loads (JDict ?items)), ?de]),
       (''/repo/i18n/operator_wizard'', [?en])]"
  let ?fs2 = "map_of [(''/repo/i18n/operator_cli'', [?en, ?de]),
       (''/repo/i18n/operator_wizard'', [(''en.json'', Loads (JDict ?items))])]"
  let ?cli = "cli_dir ''/repo''"
  have h1: "(''k1'', JInt 1) \<in> set ?items" by simp
  have h2: "\<not> is_str (JInt 1)" by simp
  have p1: "parse_ratio sample_builtins Map.empty ''I18N_MAX_SAME_RATIO_OPERATOR_CLI'' (Finite (60 / 100))
         = Inr (Finite (60 / 100))"
    by (simp add: parse_ratio_def)
  have p2: "parse_ratio sample_builtins Map.empty ''I18N_MAX_SAME_RATIO_OPERATOR_WIZARD'' (Finite (40 / 100))
         = Inr (Finite (40 / 100))"
    by (simp add: parse_ratio_def)
  have g0: "lookup_file ?fs1 ?cli ''en.json'' = Some (Loads (JDict [(''a'', JStr ''1'')]))
      \<and> load_json (path_join ?cli ''en.json'') (Loads (JDict [(''a'', JStr ''1'')]))
          = Inr [(''a'', JStr ''1'')]
      \<and> [(''a'', JStr ''1'')] \<noteq> ([] :: pydict)
      \<and> sorted_glob ?fs1 ?cli = [?de, ?en] @ (''fr.json'', Loads (JDict ?items)) # []
      \<and> \<not> startswith (stem ''fr.json'') ''en''
      \<and> locale_loop sample_builtins ?cli (Finite (60 / 100)) [(''a'', JStr ''1'')]
            (set (map fst [(''a'', JStr ''1'')])) (card (set (map fst [(''a'', JStr ''1'')])))
            [?de, ?en] []
          = Inr [''/repo/i18n/operator_cli/de.json: appears to be a full English clone (1/1)'']"
    by code_simp
  have g1: "parse_ratio sample_builtins Map.empty ''I18N_MAX_SAME_RATIO_OPERATOR_CLI'' (Finite (60 / 100))
         = Inr (Finite (60 / 100))
     \<and> parse_ratio sample_builtins Map.empty ''I18N_MAX_SAME_RATIO_OPERATOR_WIZARD'' (Finite (40 / 100))
         = Inr (Finite (40 / 100))
     \<and> ((''fr.json'' = ''en.json'' \<and> lookup_file ?fs1 ?cli ''en.json'' = Some (Loads (JDict ?items)))
        \<or> (\<exists>bf base before rest es.
                  lookup_file ?fs1 ?cli ''en.json'' = Some bf
                  \<and> load_json (path_join ?cli ''en.json'') bf = Inr base \<and> base \<noteq> []
                  \<and> sorted_glob ?fs1 ?cli = before @ (''fr.json'', Loads (JDict ?items)) # rest
                  \<and> \<not> startswith (stem ''fr.json'') ''en''
                  \<and> locale_loop sample_builtins ?cli (Finite (60 / 100)) base (set (map fst base))
                        (card (set (map fst base))) before [] = Inr es))"
  proof (intro conjI disjI2)
    show "\<exists>bf base before rest es.
                  lookup_file ?fs1 ?cli ''en.json'' = Some bf
                  \<and> load_json (path_join ?cli ''en.json'') bf = Inr base \<and> base \<noteq> []
                  \<and> sorted_glob ?fs1 ?cli = before @ (''fr.json'', Loads (JDict ?items)) # rest
                  \<and> \<not> startswith (stem ''fr.json'') ''en''
                  \<and> locale_loop sample_builtins ?cli (Finite (60 / 100)) base (set (map fst base))
                        (card (set (map fst base))) before [] = Inr es"
      by (intro exI) (rule g0)
  qed (rule p1, rule p2)
  have g2: "parse_ratio sample_builtins Map.empty ''I18N_MAX_SAME_RATIO_OPERATOR_CLI'' (Finite (60 / 100))
         = Inr (Finite (60 / 100))
     \<and> parse_ratio sample_builtins Map.empty ''I18N_MAX_SAME_RATIO_OPERATOR_WIZARD'' (Finite (40 / 100))
         = Inr (Finite (40 / 100))
     \<and> validate_catalog_dir sample_builtins ?fs2 ?cli (Finite (60 / 100))
         = Inr [''/repo/i18n/operator_cli/de.json: appears to be a full English clone (1/1)'']
     \<and> ((''en.json'' = ''en.json''
           \<and> lookup_file ?fs2 (wizard_dir ''/repo'') ''en.json'' = Some (Loads (JDict ?items)))
        \<or> (\<exists>bf base before rest es.
                  lookup_file ?fs2 (wizard_dir ''/repo'') ''en.json'' = Some bf
                  \<and> load_json (path_join (wizard_dir ''/repo'') ''en.json'') bf = Inr base \<and> base \<noteq> []
                  \<and> sorted_glob ?fs2 (wizard_dir ''/repo'')
                      = before @ (''en.json'', Loads (JDict ?items)) # rest
                  \<and> \<not> startswith (stem ''en.json'') ''en''
                  \<and> locale_loop sample_builtins (wizard_dir ''/repo'') (Finite (40 / 100)) base
                        (set (map fst base)) (card (set (map fst base))) before [] = Inr es))"
  proof (intro conjI disjI1)
    show "validate_catalog_dir sample_builtins ?fs2 ?cli (Finite (60 / 100))
         = Inr [''/repo/i18n/operator_cli/de.json: appears to be a full English clone (1/1)'']"
      by code_simp
    show "lookup_file ?fs2 (wizard_dir ''/repo'') ''en.json'' = Some (Loads (JDict ?items))"
      by code_simp
  qed (rule p1, rule p2, rule refl)
  note t = non_string_values_fatal [where items = ?items and bi = sample_builtins
      and environ = Map.empty and repo = "''/repo''", OF h1 h2]
  note a = t [where fs = ?fs1, THEN conjunct2, THEN conjunct2, THEN conjunct1, rule_format, OF g1]
  note b = t [where fs = ?fs2, THEN conjunct2, THEN conjunct2, THEN conjunct2, rule_format, OF g2]
  have c1: "main sample_builtins Map.empty ?fs1 ''/repo''
      = Inl (SystemExit ''catalog /repo/i18n/operator_cli/fr.json has non-string values for keys: k1, k3, k4, k5, k6'')"
    by (subst a) code_simp
  have c2: "main sample_builtins Map.empty ?fs2 ''/repo''
      = Inl (SystemExit ''catalog /repo/i18n/operator_wizard/en.json has non-string values for keys: k1, k3, k4, k5, k6'')"
    by (subst b) code_simp
  show ?thesis using c1 c2 by (rule conjI)
qed

subsection \<open>The report of main\<close>

text \<open>
  C7. When both thresholds resolve and both directories are validated without a
  SystemExit, \<^verbatim>\<open>main\<close> joins the errors of the CLI directory and those of the wizard
  directory, in this order. It returns 0 exactly when the joined list is empty, and it
  then prints the one line "[i18n-check] ok"; otherwise it returns 1 and prints the
  header "[i18n-check] FAILED:" and one line per error, indented, in the order of the
  list.
\<close>

theorem main_pass_fail:
  assumes "parse_ratio bi environ ''I18N_MAX_SAME_RATIO_OPERATOR_CLI'' (Finite (60 / 100)) = Inr r1"
    and "parse_ratio bi environ ''I18N_MAX_SAME_RATIO_OPERATOR_WIZARD'' (Finite (40 / 100)) = Inr r2"
    and "validate_catalog_dir bi fs (cli_dir repo) r1 = Inr errors1"
    and "validate_catalog_dir bi fs (wizard_dir repo) r2 = Inr errors2"
  shows "main bi environ fs repo =
      Inr (if errors1 @ errors2 = [] then ([''[i18n-check] ok''], 0)
           else (''[i18n-check] FAILED:'' # map (\<lambda>err. ''  - '' @ err) (errors1 @ errors2), 1))
    \<and> ((\<exists>out. main bi environ fs repo = Inr (out, 0)) \<longleftrightarrow> errors1 @ errors2 = [])"
  using assms by (simp add: main_def report_def)

theorem main_pass_fail_witness:
  "main sample_builtins [''I18N_MAX_SAME_RATIO_OPERATOR_CLI'' \<mapsto> ''0.5'']
     (map_of [(''/repo/i18n/operator_cli'',
        [(''fr.json'', Loads (JDict [(''a'', JStr ''1''), (''b'', JStr ''X'')])),
         (''en.json'', Loads (JDict [(''a'', JStr ''1''), (''b'', JStr ''2'')]))]),
       (''/repo/i18n/operator_wizard'',
        [(''en.json'', Loads (JDict [(''a'', JStr ''1''), (''b'', JStr ''2'')])),
         (''de.json'', Loads (JDict [(''a'', JStr ''eins''), (''b'', JStr ''zwei'')]))])])
     ''/repo''
     = Inr ([''[i18n-check] ok''], 0)
   \<and> main sample_builtins Map.empty
     (map_of [(''/repo/i18n/operator_cli'',
        [(''fr.json'', Loads (JDict [(''a'', JStr ''1'')])),
         (''en.json'', Loads (JDict [(''a'', JStr ''1''), (''b'', JStr ''2'')]))]),
       (''/repo/i18n/operator_wizard'',
        [(''en.json'', Loads (JDict [(''a'', JStr ''1''), (''b'', JStr ''2'')])),
         (''de.json'', Loads (JDict [(''a'', JStr ''1''), (''b'', JStr ''zwei'')]))])])
     ''/repo''
     = Inr ([''[i18n-check] FAILED:'',
             ''  - /repo/i18n/operator_cli/fr.json: key mismatch (missing=1)'',
             ''  - /repo/i18n/operator_wizard/de.json: too many English-identical values (1/2 = 50.0%, max 40.0%)''],
            1)"
proof -
  let ?env1 = "[''I18N_MAX_SAME_RATIO_OPERATOR_CLI'' \<mapsto> ''0.5'']"
  let ?fs1 = "map_of [(''/repo/i18n/operator_cli'',
        [(''fr.json'', Loads (JDict [(''a'', JStr ''1''), (''b'', JStr ''X'')])),
         (''en.json'', Loads (JDict [(''a'', JStr ''1''), (''b'', JStr ''2'')]))]),
       (''/repo/i18n/operator_wizard'',
        [(''en.json'', Loads (JDict [(''a'', JStr ''1''), (''b'', JStr ''2'')])),
         (''de.json'', Loads (JDict [(''a'', JStr ''eins''), (''b'', JStr ''zwei'')]))])]"
  let ?fs2 = "map_of [(''/repo/i18n/operator_cli'',
        [(''fr.json'', Loads (JDict [(''a'', JStr ''1'')])),
         (''en.json'', Loads (JDict [(''a'', JStr ''1''), (''b'', JStr ''2'')]))]),
       (''/repo/i18n/operator_wizard'',
        [(''en.json'', Loads (JDict [(''a'', JStr ''1''), (''b'', JStr ''2'')])),
         (''de.json'', Loads (JDict [(''a'', JStr ''1''), (''b'', JStr ''zwei'')]))])]"
  have p1: "parse_ratio sample_builtins ?env1 ''I18N_MAX_SAME_RATIO_OPERATOR_CLI'' (Finite (60 / 100))
      = Inr (Finite (1 / 2))"
    by (simp add: parse_ratio_def strip_def py_isspace_def sample_builtins_def float_gt_def)
  have p2: "parse_ratio sample_builtins ?env1 ''I18N_MAX_SAME_RATIO_OPERATOR_WIZARD'' (Finite (40 / 100))
      = Inr (Finite (40 / 100))"
    by (simp add: parse_ratio_def)
  have v1: "validate_catalog_dir sample_builtins ?fs1 (cli_dir ''/repo'') (Finite (1 / 2)) = Inr []"
    by code_simp
  have v2: "validate_catalog_dir sample_builtins ?fs1 (wizard_dir ''/repo'') (Finite (40 / 100)) = Inr []"
    by code_simp
  have q1: "parse_ratio sample_builtins Map.empty ''I18N_MAX_SAME_RATIO_OPERATOR_CLI'' (Finite (60 / 100))
      = Inr (Finite (60 / 100))"
    by (simp add: parse_ratio_def)
  have q2: "parse_ratio sample_builtins Map.empty ''I18N_MAX_SAME_RATIO_OPERATOR_WIZARD'' (Finite (40 / 100))
      = Inr (Finite (40 / 100))"
    by (simp add: parse_ratio_def)
  have w1: "validate_catalog_dir sample_builtins ?fs2 (cli_dir ''/repo'') (Finite (60 / 100))
      = Inr [''/repo/i18n/operator_cli/fr.json: key mismatch (missing=1)'']"
    by code_simp
  have w2: "validate_catalog_dir sample_builtins ?fs2 (wizard_dir ''/repo'') (Finite (40 / 100))
      = Inr [''/repo/i18n/operator_wizard/de.json: too many English-identical values (1/2 = 50.0%, max 40.0%)'']"
    by code_simp
  note a = main_pass_fail [OF p1 p2 v1 v2, THEN conjunct1]
  note b = main_pass_fail [OF q1 q2 w1 w2, THEN conjunct1]
  have c1: "main sample_builtins ?env1 ?fs1 ''/repo'' = Inr ([''[i18n-check] ok''], 0)"
    by (subst a) simp
  have c2: "main sample_builtins Map.empty ?fs2 ''/repo''
     = Inr ([''[i18n-check] FAILED:'',
             ''  - /repo/i18n/operator_cli/fr.json: key mismatch (missing=1)'',
             ''  - /repo/i18n/operator_wizard/de.json: too many English-identical values (1/2 = 50.0%, max 40.0%)''],
            1)"
    by (subst b) simp
  show ?thesis using c1 c2 by (rule conjI)
qed

subsection \<open>Order of the output\<close>

lemma sort_key_relisted:
  fixes f :: "'a \<Rightarrow> 'k::linorder"
  assumes "distinct (map f xs)" and "distinct (map f ys)" and "set xs = set ys"
  shows "sort_key f xs = sort_key f ys"
proof -
  have inj: "inj_on f (set xs)" and dx: "distinct xs" and dy: "distinct ys"
    using assms(1,2) by (simp_all add: distinct_map)
  have "distinct (map f (sort_key f xs))" "distinct (map f (sort_key f ys))"
    using inj dx dy assms(3) by (simp_all add: distinct_map)
  moreover have "sorted (map f (sort_key f xs))" "sorted (map f (sort_key f ys))"
    by simp_all
  moreover have "set (map f (sort_key f xs)) = set (map f (sort_key f ys))"
    using assms(3) by simp
  ultimately have "map f (sort_key f xs) = map f (sort_key f ys)"
    by (metis sorted_distinct_set_unique)
  moreover have "inj_on f (set (sort_key f xs) \<union> set (sort_key f ys))"
    using inj assms(3) by simp
  ultimately show ?thesis
    by (simp add: inj_on_map_eq_map)
qed

lemma sorted_glob_relisted:
  assumes "fs p = Some es" and "fs' p = Some es'"
    and "distinct (map fst es)" and "distinct (map fst es')" and "set es = set es'"
  shows "sorted_glob fs p = sorted_glob fs' p"
  using assms
  by (simp add: sorted_glob_def glob_json_def)
     (rule sort_key_relisted, simp_all add: distinct_map_filter)

lemma validate_catalog_dir_relisted:
  assumes "same_entries (fs p) (fs' p)"
  shows "validate_catalog_dir bi fs p r = validate_catalog_dir bi fs' p r"
proof (cases "fs p")
  case None
  then have "fs' p = None" using assms by (simp add: same_entries_def)
  with None show ?thesis by (simp add: validate_catalog_dir_def lookup_file_def)
next
  case (Some es)
  then obtain es' where es': "fs' p = Some es'"
    and d: "distinct (map fst es)" "distinct (map fst es')" "set es = set es'"
    using assms by (auto simp: same_entries_def split: option.splits)
  have "map_of es = map_of es'"
    using d by (simp add: map_of_inject_set)
  then have look: "lookup_file fs p name = lookup_file fs' p name" for name
    using Some es' by (simp add: lookup_file_def)
  have glob: "sorted_glob fs p = sorted_glob fs' p"
    using Some es' d by (rule sorted_glob_relisted)
  show ?thesis
    unfolding validate_catalog_dir_def look glob by (rule refl)
qed

text \<open>
  C9. The result of a run does not depend on the order in which the two directories
  list their entries: with the same entries in both directories, \<^verbatim>\<open>main\<close> prints the
  same lines, returns the same status or raises the same SystemExit. The loop visits
  the catalog files of a directory in the order of their names, and that list of files
  is the same for every listing of the directory.
\<close>

theorem output_deterministic:
  assumes "same_entries (fs (cli_dir repo)) (fs' (cli_dir repo))"
    and "same_entries (fs (wizard_dir repo)) (fs' (wizard_dir repo))"
  shows "main bi environ fs repo = main bi environ fs' repo
    \<and> sorted (map fst (sorted_glob fs (cli_dir repo)))
    \<and> sorted (map fst (sorted_glob fs (wizard_dir repo)))
    \<and> sorted_glob fs (cli_dir repo) = sorted_glob fs' (cli_dir repo)
    \<and> sorted_glob fs (wizard_dir repo) = sorted_glob fs' (wizard_dir repo)"
proof -
  have g: "sorted_glob fs p = sorted_glob fs' p" if se: "same_entries (fs p) (fs' p)" for p
  proof (cases "fs p")
    case None
    then have "fs' p = None" using se by (simp add: same_entries_def)
    with None show ?thesis by (simp add: sorted_glob_def glob_json_def)
  next
    case (Some es)
    then obtain es' where "fs' p = Some es'"
      "distinct (map fst es)" "distinct (map fst es')" "set es = set es'"
      using se by (auto simp: same_entries_def split: option.splits)
    with Some show ?thesis by (rule sorted_glob_relisted)
  qed
  have v1: "validate_catalog_dir bi fs (cli_dir repo) r = validate_catalog_dir bi fs' (cli_dir repo) r"
    for r using assms(1) by (rule validate_catalog_dir_relisted)
  have v2: "validate_catalog_dir bi fs (wizard_dir repo) r
      = validate_catalog_dir bi fs' (wizard_dir repo) r"
    for r using assms(2) by (rule validate_catalog_dir_relisted)
  have "main bi environ fs repo = main bi environ fs' repo"
    unfolding main_def v1 v2 by (rule refl)
  moreover have "sorted (map fst (sorted_glob fs0 p))" for fs0 :: filesystem and p
    by (simp add: sorted_glob_def)
  ultimately show ?thesis
    using g [OF assms(1)] g [OF assms(2)] by simp
qed

theorem output_deterministic_witness:
  "main sample_builtins Map.empty
     (map_of [(''/repo/i18n/operator_cli'',
        [(''fr.json'', Loads (JDict [(''a'', JStr ''1'')])),
         (''en.json'', Loads (JDict [(''a'', JStr ''1''), (''b'', JStr ''2'')])),
         (''de.json'', Loads (JDict [(''a'', JStr ''1''), (''b'', JStr ''2'')]))])])
     ''/repo''
   = main sample_builtins Map.empty
     (map_of [(''/repo/i18n/operator_cli'',
        [(''de.json'', Loads (JDict [(''a'', JStr ''1''), (''b'', JStr ''2'')])),
         (''en.json'', Loads (JDict [(''a'', JStr ''1''), (''b'', JStr ''2'')])),
         (''fr.json'', Loads (JDict [(''a'', JStr ''1'')]))])])
     ''/repo''
   \<and> main sample_builtins Map.empty
     (map_of [(''/repo/i18n/operator_cli'',
        [(''fr.json'', Loads (JDict [(''a'', JStr ''1'')])),
         (''en.json'', Loads (JDict [(''a'', JStr ''1''), (''b'', JStr ''2'')])),
         (''de.json'', Loads (JDict [(''a'', JStr ''1''), (''b'', JStr ''2'')]))])])
     ''/repo''
   = Inr ([''[i18n-check] FAILED:'',
           ''  - /repo/i18n/operator_cli/de.json: appears to be a full English clone (2/2)'',
           ''  - /repo/i18n/operator_cli/fr.json: key mismatch (missing=1)'',
           ''  - missing base catalog: /repo/i18n/operator_wizard/en.json''], 1)"
proof -
  let ?fr = "(''fr.json'', Loads (JDict [(''a'', JStr ''1'')]))"
  let ?en = "(''en.json'', Loads (JDict [(''a'', JStr ''1''), (''b'', JStr ''2'')]))"
  let ?de = "(''de.json'', Loads (JDict [(''a'', JStr ''1''), (''b'', JStr ''2'')]))"
  let ?fs = "map_of [(''/repo/i18n/operator_cli'', [?fr, ?en, ?de])]"
  let ?fs' = "map_of [(''/repo/i18n/operator_cli'', [?de, ?en, ?fr])]"
  have h1: "same_entries (?fs (cli_dir ''/repo'')) (?fs' (cli_dir ''/repo''))"
    by (auto simp: same_entries_def cli_dir_def path_join_def)
  have h2: "same_entries (?fs (wizard_dir ''/repo'')) (?fs' (wizard_dir ''/repo''))"
    by (simp add: same_entries_def wizard_dir_def path_join_def)
  note a = output_deterministic [where fs = ?fs and fs' = ?fs' and repo = "''/repo''",
      OF h1 h2, THEN conjunct1, of sample_builtins Map.empty]
  have b: "main sample_builtins Map.empty ?fs' ''/repo''
     = Inr ([''[i18n-check] FAILED:'',
           ''  - /repo/i18n/operator_cli/de.json: appears to be a full English clone (2/2)'',
           ''  - /repo/i18n/operator_cli/fr.json: key mismatch (missing=1)'',
           ''  - missing base catalog: /repo/i18n/operator_wizard/en.json''], 1)"
    by code_simp
  have c: "main sample_builtins Map.empty ?fs ''/repo''
     = Inr ([''[i18n-check] FAILED:'',
           ''  - /repo/i18n/operator_cli/de.json: appears to be a full English clone (2/2)'',
           ''  - /repo/i18n/operator_cli/fr.json: key mismatch (missing=1)'',
           ''  - missing base catalog: /repo/i18n/operator_wizard/en.json''], 1)"
    using a b by (rule trans)
  show ?thesis using a c by (rule conjI)
qed

subsection \<open>Resolution of a threshold\<close>

lemma strip_empty_iff: "strip s = [] \<longleftrightarrow> (\<forall>c\<in>set s. py_isspace c)"
proof
  assume e: "strip s = []"
  show "\<forall>c\<in>set s. py_isspace c"
  proof (rule ccontr)
    assume "\<not> (\<forall>c\<in>set s. py_isspace c)"
    then have ne: "dropWhile py_isspace s \<noteq> []" by simp
    then have "\<not> py_isspace (hd (dropWhile py_isspace s))" by (rule hd_dropWhile)
    moreover have "hd (dropWhile py_isspace s) \<in> set (rev (dropWhile py_isspace s))"
      using ne by simp
    ultimately have "dropWhile py_isspace (rev (dropWhile py_isspace s)) \<noteq> []"
      by (metis dropWhile_eq_Nil_conv)
    then show False using e by (simp add: strip_def)
  qed
next
  assume "\<forall>c\<in>set s. py_isspace c"
  then have "dropWhile py_isspace s = []" by simp
  then show "strip s = []" by (simp add: strip_def del: dropWhile_eq_Nil_conv)
qed

text \<open>
  C1, amended. A variable that is not set, or whose value is empty or consists of
  whitespace only, yields the default. Any other value that \<^verbatim>\<open>float\<close> rejects, or
  that \<^verbatim>\<open>float\<close> parses to a number below 0.0 or above 1.0 (an infinity included),
  raises SystemExit with a message that names the variable and the value. The
  SystemExit of either threshold leaves \<^verbatim>\<open>main\<close>: no list of validation errors is
  built or printed.
\<close>

theorem parse_ratio_resolution:
  "(environ env_name = None \<longrightarrow> parse_ratio bi environ env_name dflt = Inr dflt)
   \<and> (\<forall>raw. environ env_name = Some raw \<and> (\<forall>c\<in>set raw. py_isspace c) \<longrightarrow>
         parse_ratio bi environ env_name dflt = Inr dflt)
   \<and> (\<forall>raw. environ env_name = Some raw \<and> (\<exists>c\<in>set raw. \<not> py_isspace c)
           \<and> float_of_str bi raw = None \<longrightarrow>
         parse_ratio bi environ env_name dflt =
           Inl (SystemExit (env_name @ '' must be a float between 0.0 and 1.0, got: ''
                  @ repr_str bi raw)))
   \<and> (\<forall>raw v. environ env_name = Some raw \<and> (\<exists>c\<in>set raw. \<not> py_isspace c)
           \<and> float_of_str bi raw = Some v
           \<and> ((\<exists>x. v = Finite x \<and> (x < 0 \<or> 1 < x)) \<or> v = PosInf \<or> v = NegInf) \<longrightarrow>
         parse_ratio bi environ env_name dflt =
           Inl (SystemExit (env_name @ '' must be between 0.0 and 1.0, got: '' @ str_float bi v)))
   \<and> (\<forall>exit. parse_ratio bi environ ''I18N_MAX_SAME_RATIO_OPERATOR_CLI'' (Finite (60 / 100)) = Inl exit
         \<longrightarrow> main bi environ fs repo = Inl exit)
   \<and> (\<forall>exit r1. parse_ratio bi environ ''I18N_MAX_SAME_RATIO_OPERATOR_CLI'' (Finite (60 / 100)) = Inr r1
           \<and> parse_ratio bi environ ''I18N_MAX_SAME_RATIO_OPERATOR_WIZARD'' (Finite (40 / 100)) = Inl exit
         \<longrightarrow> main bi environ fs repo = Inl exit)"
proof (intro conjI allI impI)
  assume "environ env_name = None"
  then show "parse_ratio bi environ env_name dflt = Inr dflt"
    by (simp add: parse_ratio_def)
next
  fix raw
  assume "environ env_name = Some raw \<and> (\<forall>c\<in>set raw. py_isspace c)"
  then show "parse_ratio bi environ env_name dflt = Inr dflt"
    by (simp add: parse_ratio_def strip_empty_iff)
next
  fix raw
  assume "environ env_name = Some raw \<and> (\<exists>c\<in>set raw. \<not> py_isspace c)
           \<and> float_of_str bi raw = None"
  then show "parse_ratio bi environ env_name dflt =
           Inl (SystemExit (env_name @ '' must be a float between 0.0 and 1.0, got: ''
                  @ repr_str bi raw))"
    by (auto simp: parse_ratio_def strip_empty_iff)
next
  fix raw v
  assume h: "environ env_name = Some raw \<and> (\<exists>c\<in>set raw. \<not> py_isspace c)
           \<and> float_of_str bi raw = Some v
           \<and> ((\<exists>x. v = Finite x \<and> (x < 0 \<or> 1 < x)) \<or> v = PosInf \<or> v = NegInf)"
  then have "float_lt v (Finite 0) \<or> float_gt v (Finite 1)"
    by (auto simp: float_gt_def)
  moreover have "strip raw \<noteq> []"
    using h by (simp add: strip_empty_iff)
  ultimately show "parse_ratio bi environ env_name dflt =
           Inl (SystemExit (env_name @ '' must be between 0.0 and 1.0, got: '' @ str_float bi v))"
    using h by (simp add: parse_ratio_def)
next
  fix exit
  assume "parse_ratio bi environ ''I18N_MAX_SAME_RATIO_OPERATOR_CLI'' (Finite (60 / 100)) = Inl exit"
  then show "main bi environ fs repo = Inl exit"
    by (simp add: main_def)
next
  fix exit r1
  assume "parse_ratio bi environ ''I18N_MAX_SAME_RATIO_OPERATOR_CLI'' (Finite (60 / 100)) = Inr r1
           \<and> parse_ratio bi environ ''I18N_MAX_SAME_RATIO_OPERATOR_WIZARD'' (Finite (40 / 100)) = Inl exit"
  then show "main bi environ fs repo = Inl exit"
    by (simp add: main_def)
qed

text \<open>
  C1 as stated fails: a value of one space is present and is not a number
  (\<^verbatim>\<open>float(" ")\<close> raises ValueError), and \<^verbatim>\<open>parse_ratio\<close> returns the default for it.
\<close>

theorem parse_ratio_whitespace_counterexample:
  "float_of_str sample_builtins '' '' = None
   \<and> parse_ratio sample_builtins [''I18N_MAX_SAME_RATIO_OPERATOR_CLI'' \<mapsto> '' '']
        ''I18N_MAX_SAME_RATIO_OPERATOR_CLI'' (Finite (60 / 100))
      = Inr (Finite (60 / 100))"
  by (simp add: parse_ratio_def strip_def py_isspace_def sample_builtins_def)

theorem parse_ratio_resolution_witness:
  "parse_ratio sample_builtins Map.empty ''I18N_MAX_SAME_RATIO_OPERATOR_CLI'' (Finite (60 / 100))
      = Inr (Finite (60 / 100))
   \<and> parse_ratio sample_builtins [''I18N_MAX_SAME_RATIO_OPERATOR_CLI'' \<mapsto> [CHR 0x20, CHR 0x09]]
        ''I18N_MAX_SAME_RATIO_OPERATOR_CLI'' (Finite (60 / 100))
      = Inr (Finite (60 / 100))
   \<and> parse_ratio sample_builtins [''I18N_MAX_SAME_RATIO_OPERATOR_CLI'' \<mapsto> ''high'']
        ''I18N_MAX_SAME_RATIO_OPERATOR_CLI'' (Finite (60 / 100))
      = Inl (SystemExit (''I18N_MAX_SAME_RATIO_OPERATOR_CLI must be a float between 0.0 and 1.0, got: ''
               @ [CHR 0x27] @ ''high'' @ [CHR 0x27]))
   \<and> parse_ratio sample_builtins [''I18N_MAX_SAME_RATIO_OPERATOR_CLI'' \<mapsto> ''2.0'']
        ''I18N_MAX_SAME_RATIO_OPERATOR_CLI'' (Finite (60 / 100))
      = Inl (SystemExit ''I18N_MAX_SAME_RATIO_OPERATOR_CLI must be between 0.0 and 1.0, got: 2.0'')
   \<and> main sample_builtins [''I18N_MAX_SAME_RATIO_OPERATOR_CLI'' \<mapsto> ''2.0''] Map.empty ''/repo''
      = Inl (SystemExit ''I18N_MAX_SAME_RATIO_OPERATOR_CLI must be between 0.0 and 1.0, got: 2.0'')"
proof -
  let ?n = "''I18N_MAX_SAME_RATIO_OPERATOR_CLI''"
  let ?d = "Finite (60 / 100)"
  note t = parse_ratio_resolution [where bi = sample_builtins and env_name = ?n and dflt = ?d]
  have a: "parse_ratio sample_builtins Map.empty ?n ?d = Inr ?d"
    using t [where environ = Map.empty, THEN conjunct1] by simp
  have b: "parse_ratio sample_builtins [?n \<mapsto> [CHR 0x20, CHR 0x09]] ?n ?d = Inr ?d"
    using t [where environ = "[?n \<mapsto> [CHR 0x20, CHR 0x09]]", THEN conjunct2, THEN conjunct1,
        rule_format, of "[CHR 0x20, CHR 0x09]"]
    by (simp add: py_isspace_def)
  have c: "parse_ratio sample_builtins [?n \<mapsto> ''high''] ?n ?d
      = Inl (SystemExit (?n @ '' must be a float between 0.0 and 1.0, got: ''
               @ [CHR 0x27] @ ''high'' @ [CHR 0x27]))"
    using t [where environ = "[?n \<mapsto> ''high'']", THEN conjunct2, THEN conjunct2, THEN conjunct1,
        rule_format, of "''high''"]
    by (simp add: py_isspace_def sample_builtins_def)
  have d: "parse_ratio sample_builtins [?n \<mapsto> ''2.0''] ?n ?d
      = Inl (SystemExit (?n @ '' must be between 0.0 and 1.0, got: 2.0''))"
    using t [where environ = "[?n \<mapsto> ''2.0'']", THEN conjunct2, THEN conjunct2, THEN conjunct2,
        THEN conjunct1, rule_format, of "''2.0''" "Finite 2"]
    by (simp add: py_isspace_def sample_builtins_def)
  have e: "main sample_builtins [?n \<mapsto> ''2.0''] Map.empty ''/repo''
      = Inl (SystemExit (?n @ '' must be between 0.0 and 1.0, got: 2.0''))"
    using t [where environ = "[?n \<mapsto> ''2.0'']" and fs = Map.empty and repo = "''/repo''",
        THEN conjunct2, THEN conjunct2, THEN conjunct2, THEN conjunct2, THEN conjunct1,
        rule_format, OF d] .
  show ?thesis using a b c d e by simp
qed

text \<open>
  The value \<^verbatim>\<open>nan\<close> is parsed by \<^verbatim>\<open>float\<close> to NaN, which is neither below 0.0 nor above
  1.0 for the comparisons of \<^verbatim>\<open>parse_ratio\<close>: it is returned as the threshold.
\<close>

lemma parse_ratio_nan:
  "parse_ratio sample_builtins [''I18N_MAX_SAME_RATIO_OPERATOR_CLI'' \<mapsto> ''nan'']
        ''I18N_MAX_SAME_RATIO_OPERATOR_CLI'' (Finite (60 / 100))
      = Inr NaN"
  by (simp add: parse_ratio_def strip_def py_isspace_def sample_builtins_def float_gt_def)

end
